theory Spec2Isabelle
  imports Main "HOL-Library.Sublist"
begin

section \<open>Python string primitives\<close>

text \<open>
  Python strings are modelled as \<^typ>\<open>string\<close>, one \<^typ>\<open>char\<close> per code point
  (code points 0 to 255).  \<open>isspace\<close> lists the code points below 256 that Python's
  \<^verbatim>\<open>str.isspace\<close> accepts; \<^verbatim>\<open>str.strip()\<close> removes them from both ends.
\<close>

definition isspace :: "char \<Rightarrow> bool" where
  "isspace c = (of_char c \<in> {9, 10, 11, 12, 13, 28, 29, 30, 31, 32, 133, 160 :: nat})"

definition strip :: "string \<Rightarrow> string" where
  "strip s = rev (dropWhile isspace (rev (dropWhile isspace s)))"

text \<open>
  Slicing \<^verbatim>\<open>s[a:b]\<close>: a negative bound counts from the end, and both bounds are
  clamped to the string.  \<open>py_slice_from\<close> is \<^verbatim>\<open>s[a:]\<close> and \<open>py_slice_to\<close> is
  \<^verbatim>\<open>s[:b]\<close>.
\<close>

definition norm_index :: "nat \<Rightarrow> int \<Rightarrow> nat" where
  "norm_index n i = (if i < 0 then nat (max 0 (int n + i)) else min (nat i) n)"

definition py_slice :: "'a list \<Rightarrow> int \<Rightarrow> int \<Rightarrow> 'a list" where
  "py_slice s a b =
     (let lo = norm_index (length s) a; hi = norm_index (length s) b
      in take (hi - lo) (drop lo s))"

definition py_slice_from :: "'a list \<Rightarrow> int \<Rightarrow> 'a list" where
  "py_slice_from s a = drop (norm_index (length s) a) s"

definition py_slice_to :: "'a list \<Rightarrow> int \<Rightarrow> 'a list" where
  "py_slice_to s b = take (norm_index (length s) b) s"

definition newline :: char where
  "newline = CHR 0x0A"

text \<open>\<^verbatim>\<open>text.split('\n\n')\<close>: the pieces between non-overlapping blank-line
  separators, found from the left.\<close>

fun prepend_char :: "char \<Rightarrow> string list \<Rightarrow> string list" where
  "prepend_char c [] = [[c]]"
| "prepend_char c (p # ps) = (c # p) # ps"

fun split_blank_lines :: "string \<Rightarrow> string list" where
  "split_blank_lines [] = [[]]"
| "split_blank_lines [a] = [[a]]"
| "split_blank_lines (a # b # cs) =
     (if a = newline \<and> b = newline then [] # split_blank_lines cs
      else prepend_char a (split_blank_lines (b # cs)))"

section \<open>utils.py: the chunker\<close>

text \<open>
  \<^verbatim>\<open>chunk_text\<close> is a \<^verbatim>\<open>while start < text_len\<close> loop whose position moves by
  \<^verbatim>\<open>chunk_size - overlap\<close>; nothing in the source makes that step positive, so the
  loop is a partial function and \<open>None\<close> stands for a run that never returns.
\<close>

partial_function (option) chunk_text_loop ::
  "string \<Rightarrow> int \<Rightarrow> int \<Rightarrow> int \<Rightarrow> string list \<Rightarrow> string list option" where
  "chunk_text_loop text chunk_size overlap start chunks =
     (if start < int (length text) then
        (let end = min (start + chunk_size) (int (length text));
             chunk = py_slice text start end
         in chunk_text_loop text chunk_size overlap (start + (chunk_size - overlap))
              (chunks @ [strip chunk]))
      else Some chunks)"

definition chunk_text :: "string \<Rightarrow> int \<Rightarrow> int \<Rightarrow> string list option" where
  "chunk_text text chunk_size overlap = chunk_text_loop text chunk_size overlap 0 []"

text \<open>
  \<^verbatim>\<open>chunk_by_sections\<close>.  The paragraph loop carries \<open>(chunks, current_chunk)\<close>.  The
  source also computes \<^verbatim>\<open>is_section_header\<close> for each paragraph and never reads it,
  so it has no counterpart here.
\<close>

fun paragraph_loop ::
  "int \<Rightarrow> int \<Rightarrow> string list \<Rightarrow> string list \<times> string \<Rightarrow> string list \<times> string" where
  "paragraph_loop chunk_size overlap [] st = st"
| "paragraph_loop chunk_size overlap (p # ps) (chunks, current_chunk) =
     (let paragraph = strip p in
      if paragraph = [] then paragraph_loop chunk_size overlap ps (chunks, current_chunk)
      else if int (length current_chunk) + int (length paragraph) > chunk_size
              \<and> current_chunk \<noteq> [] then
        (let overlap_text =
               (if int (length current_chunk) > overlap
                then py_slice_from current_chunk (- overlap) else current_chunk)
         in paragraph_loop chunk_size overlap ps
              (chunks @ [strip current_chunk],
               overlap_text @ [newline, newline] @ paragraph))
      else if current_chunk \<noteq> [] then
        paragraph_loop chunk_size overlap ps
          (chunks, current_chunk @ [newline, newline] @ paragraph)
      else paragraph_loop chunk_size overlap ps (chunks, paragraph))"

fun split_oversize ::
  "int \<Rightarrow> int \<Rightarrow> string list \<Rightarrow> string list \<Rightarrow> string list option" where
  "split_oversize chunk_size overlap [] final_chunks = Some final_chunks"
| "split_oversize chunk_size overlap (chunk # rest) final_chunks =
     (if int (length chunk) > chunk_size * 2 then
        (case chunk_text chunk chunk_size overlap of
           None \<Rightarrow> None
         | Some sub_chunks \<Rightarrow>
             split_oversize chunk_size overlap rest (final_chunks @ sub_chunks))
      else split_oversize chunk_size overlap rest (final_chunks @ [chunk]))"

definition chunk_by_sections :: "string \<Rightarrow> int \<Rightarrow> int \<Rightarrow> string list option" where
  "chunk_by_sections text chunk_size overlap =
     (case paragraph_loop chunk_size overlap (split_blank_lines text) ([], []) of
        (chunks0, current_chunk) \<Rightarrow>
          (let chunks = (if current_chunk \<noteq> [] then chunks0 @ [strip current_chunk]
                         else chunks0)
           in case split_oversize chunk_size overlap chunks [] of
                None \<Rightarrow> None
              | Some final_chunks \<Rightarrow>
                  if final_chunks = [] then chunk_text text chunk_size overlap
                  else Some final_chunks))"

section \<open>Decimal numerals\<close>

text \<open>\<^verbatim>\<open>str(n)\<close> of an integer, and \<^verbatim>\<open>int(s)\<close> of a string of ASCII digits (the only
  strings the source passes to \<^verbatim>\<open>int\<close>: both come from a \<^verbatim>\<open>\d\<close> pattern).\<close>

definition digit_char :: "nat \<Rightarrow> char" where
  "digit_char d = ''0123456789'' ! d"

definition is_digit :: "char \<Rightarrow> bool" where
  "is_digit c = (48 \<le> (of_char c :: nat) \<and> (of_char c :: nat) \<le> 57)"

definition digit_val :: "char \<Rightarrow> nat" where
  "digit_val c = of_char c - 48"

function str_nat :: "nat \<Rightarrow> string" where
  "str_nat n = (if n < 10 then [digit_char n] else str_nat (n div 10) @ [digit_char (n mod 10)])"
  by pat_completeness auto
termination
  by (relation "measure (\<lambda>n. n)") auto

declare str_nat.simps [simp del]

definition str_int :: "int \<Rightarrow> string" where
  "str_int i = (if i < 0 then CHR ''-'' # str_nat (nat (- i)) else str_nat (nat i))"

definition int_of_digits :: "string \<Rightarrow> nat" where
  "int_of_digits ds = foldl (\<lambda>acc c. 10 * acc + digit_val c) 0 ds"

section \<open>External collaborators\<close>

text \<open>
  The embedding service, the language model, the index file and the metadata file are
  outside the repository.  Each call takes the state of the outside world \<open>'w\<close> and
  returns a result or a raised exception, with the world after the call; nothing is
  assumed about how a service answers.  \<open>'f\<close> is the type of vector components, \<open>'d\<close> of
  distances and \<open>'i\<close> of loaded index objects.
\<close>

datatype error =
    FileNotFoundError string
  | ValueError string
  | IndexError string
  | ExternalError string
  | SystemExit int
  | KeyboardInterrupt

text \<open>What an \<^verbatim>\<open>except Exception\<close> clause catches: every error but \<^verbatim>\<open>SystemExit\<close> and
  \<^verbatim>\<open>KeyboardInterrupt\<close>, which are not subclasses of \<^verbatim>\<open>Exception\<close>.\<close>

fun is_exception :: "error \<Rightarrow> bool" where
  "is_exception (SystemExit n) = False"
| "is_exception KeyboardInterrupt = False"
| "is_exception e = True"

text \<open>A stored chunk: the value kept under a chunk id in \<^verbatim>\<open>meta.json\<close>.  The query side
  reads \<^verbatim>\<open>year\<close> with \<^verbatim>\<open>chunk.get('year', 0)\<close>, so the field may be absent.\<close>

record chunk =
  c_source :: string
  c_chunk_index :: int
  c_text :: string
  c_year :: "int option"
  c_report_year :: "int option"

section \<open>ingest.py\<close>

text \<open>\<^verbatim>\<open>re.search(r'20\d{2}', s)\<close> followed by \<^verbatim>\<open>int\<close> of the match: the leftmost
  occurrence of \<open>20\<close> and two digits.\<close>

fun find_year :: "string \<Rightarrow> int option" where
  "find_year (a # b # c # d # rest) =
     (if a = CHR ''2'' \<and> b = CHR ''0'' \<and> is_digit c \<and> is_digit d
      then Some (int (int_of_digits [a, b, c, d]))
      else find_year (b # c # d # rest))"
| "find_year s = None"

definition extract_year_from_filename :: "string \<Rightarrow> int" where
  "extract_year_from_filename filename =
     (case find_year filename of Some y \<Rightarrow> y | None \<Rightarrow> 0)"

text \<open>\<^verbatim>\<open>range(0, n, step)\<close> for a positive or negative step; a zero step raises in
  \<open>embed_texts\<close> below.\<close>

definition py_range :: "nat \<Rightarrow> int \<Rightarrow> nat list" where
  "py_range n step =
     (if 0 < step then map (\<lambda>j. j * nat step) [0 ..< (n + nat step - 1) div nat step]
      else [])"

definition zero_embedding :: "'f::zero list" where
  "zero_embedding = replicate 3072 0"

text \<open>The loop of \<^verbatim>\<open>embed_texts\<close> over the batch starts \<open>i\<close>.  A call that raises
  an \<^verbatim>\<open>Exception\<close> is caught and one zero vector per text of the batch is appended;
  any other raised error leaves the function.\<close>

fun embed_batches ::
  "(string list \<Rightarrow> 'w \<Rightarrow> (error + 'f::zero list list) \<times> 'w) \<Rightarrow> string list \<Rightarrow> int
     \<Rightarrow> nat list \<Rightarrow> 'f list list \<Rightarrow> 'w \<Rightarrow> (error + 'f list list) \<times> 'w" where
  "embed_batches create texts batch_size [] all_embeddings w = (Inr all_embeddings, w)"
| "embed_batches create texts batch_size (i # rest) all_embeddings w =
     (let batch = py_slice texts (int i) (int i + batch_size) in
      case create batch w of
        (Inr batch_embs, w') \<Rightarrow>
          embed_batches create texts batch_size rest (all_embeddings @ batch_embs) w'
      | (Inl e, w') \<Rightarrow>
          if is_exception e then
            embed_batches create texts batch_size rest
              (all_embeddings @ map (\<lambda>_. zero_embedding) batch) w'
          else (Inl e, w'))"

text \<open>\<^verbatim>\<open>np.array(rows, dtype="float32")\<close> raises on rows of different lengths and
  otherwise converts every component to single precision; the conversion \<open>float32\<close> is
  a parameter.\<close>

definition np_array :: "('f \<Rightarrow> 'g) \<Rightarrow> 'f list list \<Rightarrow> error + 'g list list" where
  "np_array float32 rows =
     (case rows of
        [] \<Rightarrow> Inr []
      | r # rs \<Rightarrow>
          if list_all (\<lambda>x. length x = length r) rs then Inr (map (map float32) rows)
          else Inl (ValueError ''inhomogeneous shape''))"

definition embed_texts ::
  "(string list \<Rightarrow> 'w \<Rightarrow> (error + 'f::zero list list) \<times> 'w) \<Rightarrow> ('f \<Rightarrow> 'g)
     \<Rightarrow> string list \<Rightarrow> int \<Rightarrow> 'w \<Rightarrow> (error + 'g list list) \<times> 'w" where
  "embed_texts create float32 texts batch_size w =
     (if batch_size = 0 then (Inl (ValueError ''range() arg 3 must not be zero''), w)
      else
        (case embed_batches create texts batch_size (py_range (length texts) batch_size) [] w
         of (Inl e, w') \<Rightarrow> (Inl e, w')
          | (Inr all_embeddings, w') \<Rightarrow> (np_array float32 all_embeddings, w')))"

text \<open>
  The main program.  \<open>pdf_files\<close> is the list of file names with, for each, what
  \<^verbatim>\<open>extract_text_and_tables_from_pdf\<close> gave: a text, or a raised error.  The loop's
  \<^verbatim>\<open>except Exception\<close> skips the file on an \<^verbatim>\<open>Exception\<close>; any other raised error ends
  the program.  The state of the loop is \<open>(all_chunks, metadata, id_counter)\<close>; a
  metadata entry is kept as the pair of its \<^verbatim>\<open>id\<close> and its other fields.
\<close>

record ingest_state =
  all_chunks :: "string list"
  metadata :: "(string \<times> chunk) list"
  id_counter :: nat

fun add_chunks :: "string \<Rightarrow> int \<Rightarrow> nat \<Rightarrow> string list \<Rightarrow> ingest_state \<Rightarrow> ingest_state" where
  "add_chunks fname yr i [] st = st"
| "add_chunks fname yr i (c # cs) st =
     add_chunks fname yr (Suc i) cs
       \<lparr> all_chunks = all_chunks st @ [c],
         metadata = metadata st @
           [(str_nat (id_counter st),
             \<lparr> c_source = fname, c_chunk_index = int i, c_text = py_slice_to c 4000,
               c_year = Some yr, c_report_year = Some yr \<rparr>)],
         id_counter = id_counter st + 1 \<rparr>"

fun process_files ::
  "(string \<times> (error + string)) list \<Rightarrow> ingest_state \<Rightarrow> (error + ingest_state) option" where
  "process_files [] st = Some (Inr st)"
| "process_files ((fname, extracted) # rest) st =
     (case extracted of
        Inl e \<Rightarrow> if is_exception e then process_files rest st else Some (Inl e)
      | Inr t \<Rightarrow>
          (case chunk_by_sections t 1200 300 of
             None \<Rightarrow> None
           | Some chunks \<Rightarrow>
               process_files rest
                 (add_chunks fname (extract_year_from_filename fname) 0 chunks st)))"

text \<open>A dict comprehension: later entries overwrite earlier ones with the same key.\<close>

definition dict_of :: "('k \<times> 'v) list \<Rightarrow> ('k \<rightharpoonup> 'v)" where
  "dict_of kvs = foldl (\<lambda>m kv. m(fst kv \<mapsto> snd kv)) Map.empty kvs"

text \<open>\<^verbatim>\<open>build_index\<close> adds the rows to a fresh flat index in their order and writes the
  index and the metadata; what is persisted is the pair of the rows and the mapping
  (the two file writes are taken to succeed).\<close>

definition build_index ::
  "'g list list \<Rightarrow> (string \<rightharpoonup> chunk) \<Rightarrow> 'g list list \<times> (string \<rightharpoonup> chunk)" where
  "build_index embeddings ids = (embeddings, ids)"

text \<open>The last \<^verbatim>\<open>try\<close> block turns an \<^verbatim>\<open>Exception\<close> of \<^verbatim>\<open>embed_texts\<close> into
  \<^verbatim>\<open>exit(1)\<close>; any other raised error leaves the program as it is.\<close>

definition ingest_main ::
  "(string list \<Rightarrow> 'w \<Rightarrow> (error + 'f::zero list list) \<times> 'w) \<Rightarrow> ('f \<Rightarrow> 'g)
     \<Rightarrow> (string \<times> (error + string)) list \<Rightarrow> 'w
     \<Rightarrow> ((error + 'g list list \<times> (string \<rightharpoonup> chunk)) \<times> 'w) option" where
  "ingest_main create float32 pdf_files w =
     (if pdf_files = [] then Some (Inl (SystemExit 1), w)
      else
        (case process_files pdf_files \<lparr> all_chunks = [], metadata = [], id_counter = 0 \<rparr> of
           None \<Rightarrow> None
         | Some (Inl e) \<Rightarrow> Some (Inl e, w)
         | Some (Inr st) \<Rightarrow>
             if all_chunks st = [] then Some (Inl (SystemExit 1), w)
             else
               (case embed_texts create float32 (all_chunks st) 100 w of
                  (Inl e, w') \<Rightarrow>
                    Some (Inl (if is_exception e then SystemExit 1 else e), w')
                | (Inr embs, w') \<Rightarrow>
                    Some (Inr (build_index embs (dict_of (metadata st))), w'))))"

section \<open>query.py: retrieval\<close>

text \<open>
  A request to the chat model.  Each constructor stands for one prompt template of the
  source (with its model, token limit and temperature) filled with the given fields:
  the answering prompt (passages, question), the alternative-phrasings prompt
  (question), the gap-analysis prompt (question, main answer, context) and the
  synthesis prompt (question, context).
\<close>

datatype request =
    AnswerPrompt string string
  | AlternativesPrompt string
  | AnalysisPrompt string string string
  | SynthesisPrompt string string

text \<open>
  The collaborators of the query side.  \<open>index_file\<close> and \<open>meta_file\<close> give the content
  of \<^verbatim>\<open>faiss_index.bin\<close> and \<^verbatim>\<open>meta.json\<close> when the file exists; \<open>index_search\<close> is
  \<^verbatim>\<open>index.search(q, k)\<close>, returning row 0 of \<open>(D, I)\<close> as a list of (distance, id) pairs.
\<close>

record ('w, 'f, 'd, 'i) env =
  index_file :: "'w \<Rightarrow> 'i option"
  meta_file :: "'w \<Rightarrow> (string \<rightharpoonup> chunk) option"
  embeddings_create :: "string list \<Rightarrow> 'w \<Rightarrow> (error + 'f list list) \<times> 'w"
  index_search :: "'i \<Rightarrow> 'f list \<Rightarrow> int \<Rightarrow> error + ('d \<times> int) list"
  chat_create :: "request \<Rightarrow> 'w \<Rightarrow> (error + string) \<times> 'w"

definition load_index :: "('w, 'f, 'd, 'i) env \<Rightarrow> 'w \<Rightarrow> error + 'i" where
  "load_index env w =
     (case index_file env w of
        None \<Rightarrow> Inl (FileNotFoundError ''Index file not found: faiss_index.bin'')
      | Some index \<Rightarrow> Inr index)"

definition load_meta :: "('w, 'f, 'd, 'i) env \<Rightarrow> 'w \<Rightarrow> error + (string \<rightharpoonup> chunk)" where
  "load_meta env w =
     (case meta_file env w of
        None \<Rightarrow> Inl (FileNotFoundError ''Metadata file not found: meta.json'')
      | Some meta \<Rightarrow> Inr meta)"

definition embed_query :: "('w, 'f, 'd, 'i) env \<Rightarrow> string \<Rightarrow> 'w \<Rightarrow> (error + 'f list) \<times> 'w" where
  "embed_query env q w =
     (case embeddings_create env [q] w of
        (Inl e, w') \<Rightarrow> (Inl e, w')
      | (Inr data, w') \<Rightarrow>
          (case data of
             [] \<Rightarrow> (Inl (IndexError ''list index out of range''), w')
           | v # others \<Rightarrow> (Inr v, w')))"

text \<open>\<^verbatim>\<open>if target_year:\<close> is a truthiness test: \<^verbatim>\<open>None\<close> and \<open>0\<close> are both false.\<close>

definition truthy :: "int option \<Rightarrow> bool" where
  "truthy target_year = (case target_year of None \<Rightarrow> False | Some y \<Rightarrow> y \<noteq> 0)"

definition chunk_year :: "chunk \<Rightarrow> int" where
  "chunk_year c = (case c_year c of Some y \<Rightarrow> y | None \<Rightarrow> 0)"

text \<open>The walk over \<^verbatim>\<open>I[0]\<close>.  The test \<^verbatim>\<open>len(results) >= k\<close> sits inside
  \<^verbatim>\<open>if sid in meta\<close>, so it runs after every id that resolves, accepted or not.\<close>

fun retrieve_loop ::
  "(string \<rightharpoonup> chunk) \<Rightarrow> int option \<Rightarrow> int \<Rightarrow> int list \<Rightarrow> chunk list \<Rightarrow> chunk list" where
  "retrieve_loop meta target_year k [] results = results"
| "retrieve_loop meta target_year k (idx # rest) results =
     (case meta (str_int idx) of
        None \<Rightarrow> retrieve_loop meta target_year k rest results
      | Some chunk \<Rightarrow>
          (let results' =
                 (case target_year of
                    None \<Rightarrow> results @ [chunk]
                  | Some ty \<Rightarrow>
                      if ty \<noteq> 0 then
                        (if chunk_year chunk = ty then results @ [chunk]
                         else if \<bar>chunk_year chunk - ty\<bar> \<le> 1 then results @ [chunk]
                         else results)
                      else results @ [chunk])
           in if int (length results') \<ge> k then results'
              else retrieve_loop meta target_year k rest results'))"

definition retrieve ::
  "('w, 'f, 'd, 'i) env \<Rightarrow> string \<Rightarrow> int \<Rightarrow> int option \<Rightarrow> 'w \<Rightarrow> (error + chunk list) \<times> 'w" where
  "retrieve env query k target_year w =
     (case load_index env w of
        Inl e \<Rightarrow> (Inl e, w)
      | Inr index \<Rightarrow>
     (case load_meta env w of
        Inl e \<Rightarrow> (Inl e, w)
      | Inr meta \<Rightarrow>
     (case embed_query env query w of
        (Inl e, w') \<Rightarrow> (Inl e, w')
      | (Inr q_emb, w') \<Rightarrow>
     (let search_k = (if truthy target_year then k * 3 else k) in
      case index_search env index q_emb search_k of
        Inl e \<Rightarrow> (Inl e, w')
      | Inr neighbors \<Rightarrow>
          (Inr (py_slice_to (retrieve_loop meta target_year k (map snd neighbors) []) k),
           w')))))"

definition extract_year_from_query :: "string \<Rightarrow> int option" where
  "extract_year_from_query query = find_year query"

section \<open>query.py: answering\<close>

text \<open>Substring test, \<^verbatim>\<open>str.split('\n')\<close>, \<^verbatim>\<open>sep.join(parts)\<close> and the parser of
  \<open>- \<close> bullet lines that the source applies to model output.\<close>

fun contains :: "string \<Rightarrow> string \<Rightarrow> bool" where
  "contains needle [] = (needle = [])"
| "contains needle (c # cs) = (prefix needle (c # cs) \<or> contains needle cs)"

fun split_lines :: "string \<Rightarrow> string list" where
  "split_lines [] = [[]]"
| "split_lines (c # cs) =
     (if c = newline then [] # split_lines cs else prepend_char c (split_lines cs))"

fun join :: "string \<Rightarrow> string list \<Rightarrow> string" where
  "join sep [] = []"
| "join sep [x] = x"
| "join sep (x # y # ys) = x @ sep @ join sep (y # ys)"

fun parse_bullets :: "string list \<Rightarrow> string list \<Rightarrow> string list" where
  "parse_bullets [] items = items"
| "parse_bullets (l # ls) items =
     (let line = strip l in
      if prefix ''- '' line then parse_bullets ls (items @ [strip (py_slice_from line 2)])
      else parse_bullets ls items)"

record answer_result =
  r_question :: string
  r_answer :: string
  r_chunks :: "chunk list"
  r_sources :: "string list"

text \<open>\<^verbatim>\<open>re.findall(r'\[(\d+)\]', answer)\<close>: at each \<open>[\<close>, the longest run of digits;
  it is a match when it is not empty and \<open>]\<close> follows, and the scan goes on after the
  \<open>]\<close>; otherwise the scan goes on at the next character.\<close>

function find_markers :: "string \<Rightarrow> string list" where
  "find_markers [] = []"
| "find_markers (c # cs) =
     (if c = CHR ''['' \<and> takeWhile is_digit cs \<noteq> []
         \<and> prefix '']'' (dropWhile is_digit cs)
      then takeWhile is_digit cs # find_markers (tl (dropWhile is_digit cs))
      else find_markers cs)"
  by pat_completeness auto
termination
proof (relation "measure length")
  fix c :: char and cs :: string
  have "length (tl (dropWhile is_digit cs)) \<le> length cs"
    using length_dropWhile_le [of is_digit cs] by simp
  then show "(tl (dropWhile is_digit cs), c # cs) \<in> measure length" by simp
qed simp_all

text \<open>\<^verbatim>\<open>int(num)\<close> of each match.  (Python refuses numerals of more than 4300 digits;
  an answer of at most 1000 tokens holds none.)\<close>

definition cited_numbers :: "string \<Rightarrow> int list" where
  "cited_numbers answer = map (\<lambda>num. int (int_of_digits num)) (find_markers answer)"

definition citation :: "int \<Rightarrow> chunk \<Rightarrow> string" where
  "citation num chunk =
     ''['' @ str_int num @ ''] '' @ c_source chunk @ '', chunk '' @ str_int (c_chunk_index chunk)"

fun cite_sources :: "chunk list \<Rightarrow> int list \<Rightarrow> string list \<Rightarrow> string list" where
  "cite_sources hits [] sources = sources"
| "cite_sources hits (num # rest) sources =
     (if 1 \<le> num \<and> num \<le> int (length hits)
      then cite_sources hits rest (sources @ [citation num (hits ! nat (num - 1))])
      else cite_sources hits rest sources)"

fun numbered_passages :: "int \<Rightarrow> chunk list \<Rightarrow> string list" where
  "numbered_passages i [] = []"
| "numbered_passages i (chunk # rest) =
     (''['' @ str_int i @ ''] '' @ c_text chunk) # numbered_passages (i + 1) rest"

definition answer_sub_question ::
  "('w, 'f, 'd, 'i) env \<Rightarrow> string \<Rightarrow> int option \<Rightarrow> 'w \<Rightarrow> (error + answer_result) \<times> 'w" where
  "answer_sub_question env sub_question target_year w =
     (case retrieve env sub_question 4 target_year w of
        (Inl e, w1) \<Rightarrow> (Inl e, w1)
      | (Inr hits, w1) \<Rightarrow>
          if hits = [] then
            (Inr \<lparr> r_question = sub_question,
                   r_answer = ''No relevant information found.'',
                   r_chunks = [], r_sources = [] \<rparr>, w1)
          else
            (let passages = join [newline, newline] (numbered_passages 1 hits) in
             case chat_create env (AnswerPrompt passages sub_question) w1 of
               (Inl e, w2) \<Rightarrow> (Inl e, w2)
             | (Inr answer, w2) \<Rightarrow>
                 (Inr \<lparr> r_question = sub_question, r_answer = answer, r_chunks = hits,
                        r_sources = cite_sources hits (cited_numbers answer) [] \<rparr>, w2)))"

definition generate_alternative_questions ::
  "('w, 'f, 'd, 'i) env \<Rightarrow> string \<Rightarrow> 'w \<Rightarrow> (error + string list) \<times> 'w" where
  "generate_alternative_questions env original_question w =
     (case chat_create env (AlternativesPrompt original_question) w of
        (Inl e, w') \<Rightarrow> (Inl e, w')
      | (Inr response_text, w') \<Rightarrow> (Inr (parse_bullets (split_lines response_text) []), w'))"

text \<open>The loop over the alternatives: \<open>Some\<close> is the early \<^verbatim>\<open>return alt_result\<close>,
  \<open>None\<close> is the loop running to its end.\<close>

fun try_alternatives ::
  "('w, 'f, 'd, 'i) env \<Rightarrow> string \<Rightarrow> int option \<Rightarrow> string list \<Rightarrow> 'w
     \<Rightarrow> (error + answer_result option) \<times> 'w" where
  "try_alternatives env sub_question target_year [] w = (Inr None, w)"
| "try_alternatives env sub_question target_year (alt_question # rest) w =
     (case answer_sub_question env alt_question target_year w of
        (Inl e, w') \<Rightarrow> (Inl e, w')
      | (Inr alt_result, w') \<Rightarrow>
          if \<not> contains ''I don't know'' (r_answer alt_result)
             \<and> \<not> contains ''No relevant information found'' (r_answer alt_result)
          then (Inr (Some (alt_result
                  \<lparr> r_question := sub_question @ '' (tried alternative: '' @ alt_question @ '')'' \<rparr>)),
                w')
          else try_alternatives env sub_question target_year rest w')"

definition answer_sub_question_with_fallback ::
  "('w, 'f, 'd, 'i) env \<Rightarrow> string \<Rightarrow> int option \<Rightarrow> 'w \<Rightarrow> (error + answer_result) \<times> 'w" where
  "answer_sub_question_with_fallback env sub_question target_year w =
     (case answer_sub_question env sub_question target_year w of
        (Inl e, w1) \<Rightarrow> (Inl e, w1)
      | (Inr result, w1) \<Rightarrow>
          if contains ''I don't know'' (r_answer result)
             \<or> contains ''No relevant information found'' (r_answer result)
          then
            (case generate_alternative_questions env sub_question w1 of
               (Inl e, w2) \<Rightarrow> (Inl e, w2)
             | (Inr alternatives, w2) \<Rightarrow>
                 (case try_alternatives env sub_question target_year alternatives w2 of
                    (Inl e, w3) \<Rightarrow> (Inl e, w3)
                  | (Inr (Some alt_result), w3) \<Rightarrow> (Inr alt_result, w3)
                  | (Inr None, w3) \<Rightarrow> (Inr result, w3)))
          else (Inr result, w1))"

section \<open>query.py: the orchestrator\<close>

datatype section_name = Missing | Questions

record analysis =
  missing_info :: "string list"
  follow_up_questions :: "string list"

fun parse_analysis ::
  "string list \<Rightarrow> section_name option \<Rightarrow> analysis \<Rightarrow> analysis" where
  "parse_analysis [] current_section a = a"
| "parse_analysis (l # ls) current_section a =
     (let line = strip l in
      if prefix ''MISSING INFORMATION:'' line then parse_analysis ls (Some Missing) a
      else if prefix ''FOLLOW-UP QUESTIONS NEEDED:'' line then
        parse_analysis ls (Some Questions) a
      else if prefix ''- '' line \<and> current_section = Some Missing then
        parse_analysis ls current_section
          (a \<lparr> missing_info := missing_info a @ [strip (py_slice_from line 2)] \<rparr>)
      else if prefix ''- '' line \<and> current_section = Some Questions then
        parse_analysis ls current_section
          (a \<lparr> follow_up_questions := follow_up_questions a @ [strip (py_slice_from line 2)] \<rparr>)
      else parse_analysis ls current_section a)"

definition analyze_missing_information ::
  "('w, 'f, 'd, 'i) env \<Rightarrow> string \<Rightarrow> string \<Rightarrow> chunk list \<Rightarrow> 'w \<Rightarrow> (error + analysis) \<times> 'w" where
  "analyze_missing_information env original_question main_answer available_chunks w =
     (let chunk_summaries =
            map (\<lambda>chunk. py_slice_to (c_text chunk) 300) (py_slice_to available_chunks 3);
          context = join [newline] chunk_summaries
      in case chat_create env (AnalysisPrompt original_question main_answer context) w of
           (Inl e, w') \<Rightarrow> (Inl e, w')
         | (Inr response_text, w') \<Rightarrow>
             (Inr (parse_analysis (split_lines response_text) None
                     \<lparr> missing_info = [], follow_up_questions = [] \<rparr>), w'))"

fun context_parts :: "int \<Rightarrow> answer_result list \<Rightarrow> string list" where
  "context_parts i [] = []"
| "context_parts i (result # rest) =
     [''Sub-question '' @ str_int i @ '': '' @ r_question result,
      ''Answer: '' @ r_answer result]
     @ (if r_sources result \<noteq> [] then [''Sources: '' @ join ''; '' (r_sources result)] else [])
     @ [[]]
     @ context_parts (i + 1) rest"

definition synthesize_final_answer ::
  "('w, 'f, 'd, 'i) env \<Rightarrow> string \<Rightarrow> answer_result list \<Rightarrow> 'w \<Rightarrow> (error + string) \<times> 'w" where
  "synthesize_final_answer env original_question sub_question_results w =
     chat_create env
       (SynthesisPrompt original_question (join [newline] (context_parts 1 sub_question_results)))
       w"

fun answer_follow_ups ::
  "('w, 'f, 'd, 'i) env \<Rightarrow> int option \<Rightarrow> string list \<Rightarrow> answer_result list \<Rightarrow> 'w
     \<Rightarrow> (error + answer_result list) \<times> 'w" where
  "answer_follow_ups env target_year [] follow_up_results w = (Inr follow_up_results, w)"
| "answer_follow_ups env target_year (follow_up_q # rest) follow_up_results w =
     (case answer_sub_question_with_fallback env follow_up_q target_year w of
        (Inl e, w') \<Rightarrow> (Inl e, w')
      | (Inr result, w') \<Rightarrow>
          answer_follow_ups env target_year rest (follow_up_results @ [result]) w')"

definition generate_answer ::
  "('w, 'f, 'd, 'i) env \<Rightarrow> string \<Rightarrow> chunk list \<Rightarrow> 'w \<Rightarrow> (error + string) \<times> 'w" where
  "generate_answer env question retrieved_chunks w =
     (let target_year = extract_year_from_query question in
      case answer_sub_question_with_fallback env question target_year w of
        (Inl e, w1) \<Rightarrow> (Inl e, w1)
      | (Inr main_result, w1) \<Rightarrow>
     (case analyze_missing_information env question (r_answer main_result)
             (r_chunks main_result) w1 of
        (Inl e, w2) \<Rightarrow> (Inl e, w2)
      | (Inr a, w2) \<Rightarrow>
     (case answer_follow_ups env target_year (follow_up_questions a) [] w2 of
        (Inl e, w3) \<Rightarrow> (Inl e, w3)
      | (Inr follow_up_results, w3) \<Rightarrow>
          synthesize_final_answer env question ([main_result] @ follow_up_results) w3)))"

section \<open>Specification functions for ingestion\<close>

text \<open>
  What the embedding service promises: a successful call returns one vector per input
  text, each of the 3072 components of \<^verbatim>\<open>text-embedding-3-large\<close>, and a failing call
  raises an \<^verbatim>\<open>Exception\<close>.
\<close>

definition service_contract ::
  "(string list \<Rightarrow> 'w \<Rightarrow> (error + 'f list list) \<times> 'w) \<Rightarrow> bool" where
  "service_contract create =
     (\<forall>batch w r w'. create batch w = (r, w') \<longrightarrow>
        (case r of
           Inr vs \<Rightarrow> length vs = length batch \<and> list_all (\<lambda>v. length v = 3072) vs
         | Inl e \<Rightarrow> is_exception e))"

text \<open>
  The run of \<^verbatim>\<open>embed_texts\<close> from the world \<open>w\<close>: the \<open>j\<close>-th batch, the world in which
  the call on it is made (after the calls on the batches before it), the outcome of
  that call, and the number of batches.  \<open>expected_row\<close> is what row \<open>i\<close> is to hold
  before the conversion to single precision: the vector returned for text \<open>i\<close> if the
  call on its batch succeeded in this run, the zero vector if it raised.
\<close>

definition batch_at :: "string list \<Rightarrow> int \<Rightarrow> nat \<Rightarrow> string list" where
  "batch_at texts batch_size j =
     py_slice texts (int (j * nat batch_size)) (int (j * nat batch_size) + batch_size)"

fun world_before ::
  "(string list \<Rightarrow> 'w \<Rightarrow> (error + 'f list list) \<times> 'w) \<Rightarrow> string list \<Rightarrow> int \<Rightarrow> 'w
     \<Rightarrow> nat \<Rightarrow> 'w" where
  "world_before create texts batch_size w 0 = w"
| "world_before create texts batch_size w (Suc j) =
     snd (create (batch_at texts batch_size j) (world_before create texts batch_size w j))"

definition outcome ::
  "(string list \<Rightarrow> 'w \<Rightarrow> (error + 'f list list) \<times> 'w) \<Rightarrow> string list \<Rightarrow> int \<Rightarrow> 'w
     \<Rightarrow> nat \<Rightarrow> error + 'f list list" where
  "outcome create texts batch_size w j =
     fst (create (batch_at texts batch_size j) (world_before create texts batch_size w j))"

definition batch_count :: "string list \<Rightarrow> int \<Rightarrow> nat" where
  "batch_count texts batch_size = (length texts + nat batch_size - 1) div nat batch_size"

definition expected_row ::
  "(string list \<Rightarrow> 'w \<Rightarrow> (error + 'f::zero list list) \<times> 'w) \<Rightarrow> string list \<Rightarrow> int \<Rightarrow> 'w
     \<Rightarrow> nat \<Rightarrow> 'f list" where
  "expected_row create texts batch_size w i =
     (case outcome create texts batch_size w (i div nat batch_size) of
        Inr vs \<Rightarrow> vs ! (i mod nat batch_size)
      | Inl e \<Rightarrow> zero_embedding)"

text \<open>Every file that could not be read failed with an \<^verbatim>\<open>Exception\<close>.\<close>

definition only_exceptions :: "(string \<times> (error + string)) list \<Rightarrow> bool" where
  "only_exceptions pdf_files =
     list_all (\<lambda>f. case snd f of Inl e \<Rightarrow> is_exception e | Inr t \<Rightarrow> True) pdf_files"

text \<open>
  The corpus as the claim describes it: the chunks of every file whose text could be
  extracted, file after file in the order of \<open>pdf_files\<close>, each with its file name and
  its position within the file.  \<open>entry_of\<close> is the metadata of such a chunk, and
  \<open>state_of\<close> the loop state that holds a list of them: chunk number \<open>n\<close> of the corpus
  has the id \<open>str(n)\<close>.
\<close>

definition file_chunks :: "string \<times> (error + string) \<Rightarrow> (string \<times> nat \<times> string) list" where
  "file_chunks f =
     (case snd f of
        Inl e \<Rightarrow> []
      | Inr t \<Rightarrow>
          (case chunk_by_sections t 1200 300 of
             None \<Rightarrow> []
           | Some cs \<Rightarrow> map (\<lambda>(i, c). (fst f, i, c)) (enumerate 0 cs)))"

definition corpus_chunks :: "(string \<times> (error + string)) list \<Rightarrow> (string \<times> nat \<times> string) list" where
  "corpus_chunks pdf_files = concat (map file_chunks pdf_files)"

definition entry_of :: "string \<times> nat \<times> string \<Rightarrow> chunk" where
  "entry_of x =
     (case x of (fname, i, c) \<Rightarrow>
        \<lparr> c_source = fname, c_chunk_index = int i, c_text = take 4000 c,
          c_year = Some (extract_year_from_filename fname),
          c_report_year = Some (extract_year_from_filename fname) \<rparr>)"

definition state_of :: "(string \<times> nat \<times> string) list \<Rightarrow> ingest_state" where
  "state_of xs =
     \<lparr> all_chunks = map (\<lambda>x. snd (snd x)) xs,
       metadata = map (\<lambda>(n, x). (str_nat n, entry_of x)) (enumerate 0 xs),
       id_counter = length xs \<rparr>"

section \<open>Specification functions for retrieval\<close>

text \<open>The year test of \<^verbatim>\<open>retrieve\<close> as a predicate, and the chunks that a list of
  neighbour ids resolves to in the metadata, in the order of the list.\<close>

definition accepts :: "int option \<Rightarrow> chunk \<Rightarrow> bool" where
  "accepts target_year c =
     (case target_year of
        None \<Rightarrow> True
      | Some y \<Rightarrow> y = 0 \<or> \<bar>chunk_year c - y\<bar> \<le> 1)"

definition resolved :: "(string \<rightharpoonup> chunk) \<Rightarrow> int list \<Rightarrow> chunk list" where
  "resolved meta ids = List.map_filter (\<lambda>idx. meta (str_int idx)) ids"

section \<open>Specification functions for answering\<close>

text \<open>An answer text counts as failed when it contains one of the two sentinels; an
  alternative's result is returned with its question field rewritten to name the
  alternative.\<close>

definition failed :: "string \<Rightarrow> bool" where
  "failed a = (contains ''I don't know'' a \<or> contains ''No relevant information found'' a)"

definition annotate :: "string \<Rightarrow> string \<Rightarrow> answer_result \<Rightarrow> answer_result" where
  "annotate sub_question alt r =
     r \<lparr> r_question := sub_question @ '' (tried alternative: '' @ alt @ '')'' \<rparr>"

section \<open>Test fixtures\<close>

text \<open>An embedding service whose first call fails and whose later calls succeed (the
  world is the number of calls made so far), one that is interrupted, and a corpus of
  a two-paragraph file that gives two chunks, an unreadable file and a short file.\<close>

definition ones_embedding :: "int list" where
  "ones_embedding = replicate 3072 1"

definition demo_create :: "string list \<Rightarrow> nat \<Rightarrow> (error + int list list) \<times> nat" where
  "demo_create batch w =
     (if w = 0 then (Inl (ExternalError ''quota exceeded''), Suc w)
      else (Inr (map (\<lambda>_. ones_embedding) batch), Suc w))"

definition interrupted_create :: "string list \<Rightarrow> nat \<Rightarrow> (error + int list list) \<times> nat" where
  "interrupted_create batch w = (Inl KeyboardInterrupt, Suc w)"

definition long_text :: string where
  "long_text = replicate 700 CHR ''a'' @ [newline, newline] @ replicate 700 CHR ''b''"

definition demo_files :: "(string \<times> (error + string)) list" where
  "demo_files =
     [(''report_2022.pdf'', Inr long_text),
      (''scan.pdf'', Inl (ExternalError ''no text layer'')),
      (''notes_2021.pdf'', Inr ''Total Revenue was 100M in 2021.'')]"

text \<open>A metadata store of three chunks, an index whose search returns a fixed list of
  neighbours (one id unknown to the metadata, and the padding id \<open>-1\<close>), and a chat model
  that replies with the entries of a script, one per call; the world is the number of
  chat calls made so far.\<close>

definition chunk_2022 :: chunk where
  "chunk_2022 = \<lparr> c_source = ''report_2022.pdf'', c_chunk_index = 0,
                   c_text = ''Total Revenue was 120M in 2022.'',
                   c_year = Some 2022, c_report_year = Some 2022 \<rparr>"

definition chunk_2021 :: chunk where
  "chunk_2021 = \<lparr> c_source = ''report_2021.pdf'', c_chunk_index = 3,
                   c_text = ''Total Revenue was 100M in 2021.'',
                   c_year = Some 2021, c_report_year = Some 2021 \<rparr>"

definition chunk_2019 :: chunk where
  "chunk_2019 = \<lparr> c_source = ''report_2019.pdf'', c_chunk_index = 1,
                   c_text = ''Total Revenue was 80M in 2019.'',
                   c_year = Some 2019, c_report_year = Some 2019 \<rparr>"

definition demo_meta :: "string \<rightharpoonup> chunk" where
  "demo_meta = [''0'' \<mapsto> chunk_2022, ''1'' \<mapsto> chunk_2021, ''2'' \<mapsto> chunk_2019]"

definition demo_neighbors :: "(nat \<times> int) list" where
  "demo_neighbors = [(1, 2), (2, 0), (3, 7), (5, 1), (9, - 1), (9, - 1)]"

definition scripted_env :: "string list \<Rightarrow> (nat, int, nat, unit) env" where
  "scripted_env script =
     \<lparr> index_file = (\<lambda>w. Some ()),
       meta_file = (\<lambda>w. Some demo_meta),
       embeddings_create = (\<lambda>texts w. (Inr (map (\<lambda>t. [1]) texts), w)),
       index_search = (\<lambda>index q k.
          if k \<le> 0 then Inl (ExternalError ''k must be positive'')
          else Inr (take (nat k) demo_neighbors)),
       chat_create = (\<lambda>req w.
          if w < length script then (Inr (script ! w), Suc w)
          else (Inl (ExternalError ''no reply''), w)) \<rparr>"

text \<open>Chat scripts: one where the second alternative phrasing succeeds, one where every
  alternative fails, and one where gap analysis lists no follow-up question.\<close>

definition fallback_script :: "string list" where
  "fallback_script =
     [''I don't know based on the provided documents.'',
      ''- revenue 2022'' @ [newline] @ ''- sales 2022'',
      ''I don't know.'',
      ''Revenue was 120M [1].'']"

definition all_fail_script :: "string list" where
  "all_fail_script =
     [''I don't know based on the provided documents.'',
      ''- revenue 2022'' @ [newline] @ ''- sales 2022'',
      ''I don't know.'',
      ''No relevant information found in [1].'']"

definition demo_result :: "string \<Rightarrow> string \<Rightarrow> string list \<Rightarrow> answer_result" where
  "demo_result q a srcs =
     \<lparr> r_question = q, r_answer = a, r_chunks = [chunk_2022, chunk_2021], r_sources = srcs \<rparr>"

definition no_follow_up_script :: "string list" where
  "no_follow_up_script =
     [''Revenue was 120M [1].'',
      ''MISSING INFORMATION:'' @ [newline] @ ''- nothing'',
      ''Synthesis: total revenue was 120M.'']"

section \<open>Properties of the chunker\<close>

lemma length_strip_le: "length (strip s) \<le> length s"
proof -
  have "length (strip s) \<le> length (dropWhile isspace s)"
    unfolding strip_def using length_dropWhile_le [of isspace "rev (dropWhile isspace s)"]
    by simp
  also have "\<dots> \<le> length s" by (rule length_dropWhile_le)
  finally show ?thesis .
qed

lemma chunk_text_loop_diverges_aux:
  assumes "chunk_text_loop t chunk_size overlap start chunks = Some y"
  shows "start < int (length t) \<longrightarrow> overlap < chunk_size"
proof (rule chunk_text_loop.raw_induct
    [where P = "\<lambda>t cs ov st ch y. st < int (length t) \<longrightarrow> ov < cs", OF _ assms])
  fix loop :: "string \<Rightarrow> int \<Rightarrow> int \<Rightarrow> int \<Rightarrow> string list \<Rightarrow> string list option"
  fix t cs ov st ch y
  assume IH: "\<And>t cs ov st ch y. loop t cs ov st ch = Some y \<Longrightarrow> st < int (length t) \<longrightarrow> ov < cs"
  assume body: "(if st < int (length t)
      then let end = min (st + cs) (int (length t)); chunk = py_slice t st end
           in loop t cs ov (st + (cs - ov)) (ch @ [strip chunk])
      else Some ch) = Some y"
  show "st < int (length t) \<longrightarrow> ov < cs"
  proof
    assume lt: "st < int (length t)"
    with body have rec: "loop t cs ov (st + (cs - ov))
        (ch @ [strip (py_slice t st (min (st + cs) (int (length t))))]) = Some y"
      by (simp add: Let_def)
    from IH [OF rec] have "st + (cs - ov) < int (length t) \<longrightarrow> ov < cs" .
    with lt show "ov < cs" by linarith
  qed
qed

lemma length_py_slice_le:
  assumes "0 \<le> a" "a \<le> b"
  shows "int (length (py_slice s a b)) \<le> b - a"
  using assms by (auto simp: py_slice_def norm_index_def Let_def)

lemma chunk_text_loop_total:
  assumes "overlap < chunk_size"
  shows "\<exists>ys. chunk_text_loop text chunk_size overlap start chunks = Some (chunks @ ys)
            \<and> (start < int (length text) \<longrightarrow> ys \<noteq> [])
            \<and> (0 \<le> start \<and> 0 < chunk_size \<longrightarrow> (\<forall>y \<in> set ys. int (length y) \<le> chunk_size))"
proof (induction "nat (int (length text) - start)" arbitrary: start chunks rule: less_induct)
  case less
  show ?case
  proof (cases "start < int (length text)")
    case False
    then show ?thesis by (subst chunk_text_loop.simps) simp
  next
    case True
    define piece where "piece = strip (py_slice text start (min (start + chunk_size) (int (length text))))"
    define start' where "start' = start + (chunk_size - overlap)"
    have dec: "nat (int (length text) - start') < nat (int (length text) - start)"
      using True assms by (simp add: start'_def)
    from less [OF dec, of "chunks @ [piece]"] obtain ys where
      ys: "chunk_text_loop text chunk_size overlap start' ((chunks @ [piece])) = Some ((chunks @ [piece]) @ ys)"
      and bound: "0 \<le> start' \<and> 0 < chunk_size \<longrightarrow> (\<forall>y \<in> set ys. int (length y) \<le> chunk_size)"
      by blast
    have step: "chunk_text_loop text chunk_size overlap start chunks = Some (chunks @ (piece # ys))"
      using True ys by (subst chunk_text_loop.simps) (simp add: Let_def piece_def start'_def)
    have pb: "0 \<le> start \<and> 0 < chunk_size \<longrightarrow> int (length piece) \<le> chunk_size"
    proof
      assume a: "0 \<le> start \<and> 0 < chunk_size"
      have "int (length piece) \<le> int (length (py_slice text start (min (start + chunk_size) (int (length text)))))"
        unfolding piece_def using length_strip_le by simp
      also have "\<dots> \<le> min (start + chunk_size) (int (length text)) - start"
        using a True by (intro length_py_slice_le) auto
      also have "\<dots> \<le> chunk_size" by simp
      finally show "int (length piece) \<le> chunk_size" .
    qed
    have s': "0 \<le> start \<and> 0 < chunk_size \<longrightarrow> 0 \<le> start'"
      using assms by (simp add: start'_def)
    show ?thesis
      using step pb bound s' by (intro exI [of _ "piece # ys"]) auto
  qed
qed


lemma chunk_text_total:
  assumes "overlap < chunk_size"
  shows "\<exists>ys. chunk_text t chunk_size overlap = Some ys
            \<and> (t \<noteq> [] \<longrightarrow> ys \<noteq> [])
            \<and> (0 < chunk_size \<longrightarrow> (\<forall>y \<in> set ys. int (length y) \<le> chunk_size))"
  using chunk_text_loop_total [OF assms, of t 0 "[]"] by (auto simp: chunk_text_def)

lemma chunk_text_diverges:
  assumes "chunk_size \<le> overlap" "t \<noteq> []"
  shows "chunk_text t chunk_size overlap = None"
proof (cases "chunk_text t chunk_size overlap")
  case (Some y)
  then have "chunk_text_loop t chunk_size overlap 0 [] = Some y" by (simp add: chunk_text_def)
  from chunk_text_loop_diverges_aux [OF this] assms show ?thesis by simp
qed simp

lemma split_oversize_total:
  assumes "overlap < chunk_size"
  shows "\<exists>fs. split_oversize chunk_size overlap chunks final_chunks = Some (final_chunks @ fs)
            \<and> (0 < chunk_size \<longrightarrow> chunks \<noteq> [] \<longrightarrow> fs \<noteq> [])
            \<and> (0 < chunk_size \<longrightarrow> (\<forall>c \<in> set fs. int (length c) \<le> 2 * chunk_size))"
proof (induction chunks arbitrary: final_chunks)
  case Nil
  show ?case by simp
next
  case (Cons chunk rest)
  show ?case
  proof (cases "int (length chunk) > chunk_size * 2")
    case True
    from chunk_text_total [OF assms, of chunk] obtain ys where
      ys: "chunk_text chunk chunk_size overlap = Some ys"
      and ne: "chunk \<noteq> [] \<longrightarrow> ys \<noteq> []"
      and bd: "0 < chunk_size \<longrightarrow> (\<forall>y \<in> set ys. int (length y) \<le> chunk_size)"
      by blast
    from Cons [of "final_chunks @ ys"] obtain fs where
      fs: "split_oversize chunk_size overlap rest (final_chunks @ ys) = Some ((final_chunks @ ys) @ fs)"
      and fbd: "0 < chunk_size \<longrightarrow> (\<forall>c \<in> set fs. int (length c) \<le> 2 * chunk_size)"
      by blast
    have eq: "split_oversize chunk_size overlap (chunk # rest) final_chunks = Some (final_chunks @ (ys @ fs))"
      using True ys fs by simp
    have ne': "0 < chunk_size \<longrightarrow> ys @ fs \<noteq> []"
      using True ne by auto
    have bd': "0 < chunk_size \<longrightarrow> (\<forall>c \<in> set (ys @ fs). int (length c) \<le> 2 * chunk_size)"
      using bd fbd by fastforce
    show ?thesis using eq ne' bd' by blast
  next
    case False
    from Cons [of "final_chunks @ [chunk]"] obtain fs where
      fs: "split_oversize chunk_size overlap rest (final_chunks @ [chunk]) = Some ((final_chunks @ [chunk]) @ fs)"
      and fbd: "0 < chunk_size \<longrightarrow> (\<forall>c \<in> set fs. int (length c) \<le> 2 * chunk_size)"
      by blast
    have eq: "split_oversize chunk_size overlap (chunk # rest) final_chunks = Some (final_chunks @ (chunk # fs))"
      using False fs by simp
    have bd': "0 < chunk_size \<longrightarrow> (\<forall>c \<in> set (chunk # fs). int (length c) \<le> 2 * chunk_size)"
      using False fbd by auto
    show ?thesis using eq bd' by blast
  qed
qed

lemma chunk_by_sections_total:
  assumes "overlap < chunk_size"
  shows "\<exists>cs. chunk_by_sections t chunk_size overlap = Some cs
            \<and> (0 < chunk_size \<longrightarrow> t \<noteq> [] \<longrightarrow> cs \<noteq> [])
            \<and> (0 < chunk_size \<longrightarrow> (\<forall>c \<in> set cs. int (length c) \<le> 2 * chunk_size))"
proof -
  obtain chunks0 cur where pl:
    "paragraph_loop chunk_size overlap (split_blank_lines t) ([], []) = (chunks0, cur)"
    by (cases "paragraph_loop chunk_size overlap (split_blank_lines t) ([], [])")
  define chunks where "chunks = (if cur \<noteq> [] then chunks0 @ [strip cur] else chunks0)"
  from split_oversize_total [OF assms, of chunks "[]"] obtain fs where
    fs: "split_oversize chunk_size overlap chunks [] = Some fs"
    and fbd: "0 < chunk_size \<longrightarrow> (\<forall>c \<in> set fs. int (length c) \<le> 2 * chunk_size)"
    by auto
  from chunk_text_total [OF assms, of t] obtain ys where
    ys: "chunk_text t chunk_size overlap = Some ys"
    and ne: "t \<noteq> [] \<longrightarrow> ys \<noteq> []"
    and bd: "0 < chunk_size \<longrightarrow> (\<forall>y \<in> set ys. int (length y) \<le> chunk_size)"
    by blast
  have eq: "chunk_by_sections t chunk_size overlap = (if fs = [] then Some ys else Some fs)"
    using pl fs ys by (simp add: chunk_by_sections_def chunks_def Let_def)
  show ?thesis
  proof (cases "fs = []")
    case True
    have "0 < chunk_size \<longrightarrow> (\<forall>y \<in> set ys. int (length y) \<le> 2 * chunk_size)"
      using bd by fastforce
    with eq True ne show ?thesis by simp
  next
    case False
    with eq fbd show ?thesis by simp
  qed
qed

lemma chunk_by_sections_blank:
  "chunk_by_sections '' '' chunk_size overlap = chunk_text '' '' chunk_size overlap"
  by (simp add: chunk_by_sections_def strip_def isspace_def)

text \<open>
  Claim C4.  For every non-empty text and parameters with \<open>0 < overlap < chunk_size\<close>,
  \<^verbatim>\<open>chunk_by_sections(text, chunk_size, overlap)\<close> returns, the list it returns has at
  least one chunk, and every chunk in it has at most \<open>2 * chunk_size\<close> characters.
\<close>

theorem chunk_by_sections_bounded:
  assumes "t \<noteq> []" and "0 < overlap" and "overlap < chunk_size"
  shows "\<exists>chunks. chunk_by_sections t chunk_size overlap = Some chunks
            \<and> chunks \<noteq> []
            \<and> (\<forall>c \<in> set chunks. int (length c) \<le> 2 * chunk_size)"
proof -
  from assms have pos: "0 < chunk_size" by simp
  from chunk_by_sections_total [OF assms(3), of t] pos assms(1) show ?thesis by blast
qed

theorem chunk_by_sections_bounded_witness:
  "(''abcdefgh'' \<noteq> [] \<and> (0::int) < 1 \<and> (1::int) < 2)
   \<and> (\<exists>chunks. chunk_by_sections ''abcdefgh'' 2 1 = Some chunks
          \<and> chunks \<noteq> [] \<and> list_all (\<lambda>c. int (length c) \<le> 2 * 2) chunks)
   \<and> chunk_by_sections ''abcdefgh'' 2 1
        = Some [''ab'', ''bc'', ''cd'', ''de'', ''ef'', ''fg'', ''gh'', ''h'']"
proof -
  have ev: "chunk_by_sections ''abcdefgh'' 2 1
        = Some [''ab'', ''bc'', ''cd'', ''de'', ''ef'', ''fg'', ''gh'', ''h'']"
    by (simp add: chunk_by_sections_def chunk_text_def chunk_text_loop.simps strip_def
        isspace_def py_slice_def norm_index_def newline_def Let_def)
  from chunk_by_sections_bounded [of "''abcdefgh''" 1 2] ev show ?thesis
    by (simp add: list_all_iff)
qed

text \<open>
  Claim C9.  \<^verbatim>\<open>chunk_text\<close> returns exactly when the text is empty or
  \<open>overlap < chunk_size\<close>: its position moves by \<open>chunk_size - overlap\<close>, so on a
  non-empty text with \<open>overlap \<ge> chunk_size\<close> the loop never ends.  Hence
  \<^verbatim>\<open>chunk_text\<close>, and \<^verbatim>\<open>chunk_by_sections\<close> which calls it, return for every text
  exactly when \<open>overlap < chunk_size\<close>.
\<close>

theorem chunk_text_terminates_iff:
  "((\<exists>chunks. chunk_text t chunk_size overlap = Some chunks)
      \<longleftrightarrow> (t = [] \<or> overlap < chunk_size))
   \<and> (t \<noteq> [] \<and> chunk_size \<le> overlap \<longrightarrow> chunk_text t chunk_size overlap = None)
   \<and> ((\<forall>s. \<exists>chunks. chunk_text s chunk_size overlap = Some chunks)
      \<longleftrightarrow> overlap < chunk_size)
   \<and> ((\<forall>s. \<exists>chunks. chunk_by_sections s chunk_size overlap = Some chunks)
      \<longleftrightarrow> overlap < chunk_size)"
proof (intro conjI)
  show "(\<exists>chunks. chunk_text t chunk_size overlap = Some chunks)
      \<longleftrightarrow> (t = [] \<or> overlap < chunk_size)"
  proof
    assume "\<exists>chunks. chunk_text t chunk_size overlap = Some chunks"
    then show "t = [] \<or> overlap < chunk_size"
      using chunk_text_diverges [of chunk_size overlap t] by fastforce
  next
    assume "t = [] \<or> overlap < chunk_size"
    then show "\<exists>chunks. chunk_text t chunk_size overlap = Some chunks"
    proof
      assume "t = []"
      then show ?thesis by (simp add: chunk_text_def chunk_text_loop.simps)
    next
      assume "overlap < chunk_size"
      from chunk_text_total [OF this, of t] show ?thesis by blast
    qed
  qed
next
  show "t \<noteq> [] \<and> chunk_size \<le> overlap \<longrightarrow> chunk_text t chunk_size overlap = None"
    using chunk_text_diverges by blast
next
  show "(\<forall>s. \<exists>chunks. chunk_text s chunk_size overlap = Some chunks)
      \<longleftrightarrow> overlap < chunk_size"
  proof
    assume "\<forall>s. \<exists>chunks. chunk_text s chunk_size overlap = Some chunks"
    then obtain chunks where "chunk_text '' '' chunk_size overlap = Some chunks" by blast
    then show "overlap < chunk_size"
      using chunk_text_diverges [of chunk_size overlap "'' ''"] by fastforce
  next
    assume "overlap < chunk_size"
    then show "\<forall>s. \<exists>chunks. chunk_text s chunk_size overlap = Some chunks"
      using chunk_text_total by blast
  qed
next
  show "(\<forall>s. \<exists>chunks. chunk_by_sections s chunk_size overlap = Some chunks)
      \<longleftrightarrow> overlap < chunk_size"
  proof
    assume "\<forall>s. \<exists>chunks. chunk_by_sections s chunk_size overlap = Some chunks"
    then obtain chunks where "chunk_by_sections '' '' chunk_size overlap = Some chunks"
      by blast
    then have "chunk_text '' '' chunk_size overlap = Some chunks"
      by (simp add: chunk_by_sections_blank)
    then show "overlap < chunk_size"
      using chunk_text_diverges [of chunk_size overlap "'' ''"] by fastforce
  next
    assume "overlap < chunk_size"
    then show "\<forall>s. \<exists>chunks. chunk_by_sections s chunk_size overlap = Some chunks"
      using chunk_by_sections_total by blast
  qed
qed

theorem chunk_text_terminates_iff_witness:
  "chunk_text ''ab'' 1 1 = None
   \<and> chunk_text ''ab'' 1 5 = None
   \<and> (\<exists>s. chunk_by_sections s 1 1 = None)
   \<and> chunk_text ''ab'' 2 1 = Some [''ab'', ''b'']
   \<and> chunk_text [] 1 1 = Some []"
proof -
  have a: "chunk_text ''ab'' 1 1 = None"
    using chunk_text_terminates_iff [of "''ab''" 1 1] by simp
  have b: "chunk_text ''ab'' 1 5 = None"
    using chunk_text_terminates_iff [of "''ab''" 1 5] by simp
  have "\<not> (\<forall>s. \<exists>chunks. chunk_by_sections s 1 1 = Some chunks)"
    using chunk_text_terminates_iff [of "''ab''" 1 1] by simp
  then have c: "\<exists>s. chunk_by_sections s 1 1 = None" by simp
  have d: "chunk_text ''ab'' 2 1 = Some [''ab'', ''b'']"
    by (simp add: chunk_text_def chunk_text_loop.simps strip_def isspace_def py_slice_def
        norm_index_def Let_def)
  have e: "chunk_text [] 1 1 = Some []"
    by (simp add: chunk_text_def chunk_text_loop.simps)
  from a b c d e show ?thesis by blast
qed

section \<open>Properties of ingestion\<close>

lemma service_contractD:
  assumes "service_contract create"
  shows "create batch w = (Inr vs, w') \<Longrightarrow> length vs = length batch"
    and "create batch w = (Inr vs, w') \<Longrightarrow> k < length vs \<Longrightarrow> length (vs ! k) = 3072"
    and "create batch w = (Inl e, w') \<Longrightarrow> is_exception e"
proof -
  have c: "case r of Inr vs \<Rightarrow> length vs = length batch \<and> list_all (\<lambda>v. length v = 3072) vs
                  | Inl e \<Rightarrow> is_exception e" if "create batch w = (r, w')" for r
    using assms that unfolding service_contract_def by blast
  show "create batch w = (Inr vs, w') \<Longrightarrow> length vs = length batch"
    using c [of "Inr vs"] by simp
  show "create batch w = (Inr vs, w') \<Longrightarrow> k < length vs \<Longrightarrow> length (vs ! k) = 3072"
    using c [of "Inr vs"] by (simp add: list_all_length)
  show "create batch w = (Inl e, w') \<Longrightarrow> is_exception e"
    using c [of "Inl e"] by simp
qed

lemma py_slice_batch:
  assumes "0 < bs"
  shows "py_slice texts (int k) (int k + bs) = take (nat bs) (drop k texts)"
  using assms by (auto simp: py_slice_def norm_index_def Let_def min_def nat_add_distrib)

lemma ceil_div_less:
  assumes "0 < (B::nat)" "j < (n + B - 1) div B"
  shows "j * B < n"
proof -
  from assms(2) have "Suc j \<le> (n + B - 1) div B" by simp
  then have "Suc j * B \<le> n + B - 1"
    using assms(1) by (simp add: less_eq_div_iff_mult_less_eq)
  then show ?thesis using assms(1) by simp
qed

lemma ceil_div_ge:
  assumes "0 < (B::nat)"
  shows "n \<le> ((n + B - 1) div B) * B"
proof -
  have "n + B - 1 < B + ((n + B - 1) div B) * B"
    using assms by (rule dividend_less_div_times)
  then show ?thesis using assms by linarith
qed

lemma batch_at_length:
  assumes "0 < bs"
  shows "length (batch_at texts bs j) = min (nat bs) (length texts - j * nat bs)"
  unfolding batch_at_def py_slice_batch [OF assms] by simp

lemma div_mod_in_batch:
  fixes i j B :: nat
  assumes "j * B \<le> i" "i < j * B + B"
  shows "i div B = j" and "i mod B = i - j * B"
proof -
  show d: "i div B = j"
  proof (rule div_nat_eqI)
    show "B * j \<le> i" using assms(1) by (simp add: mult.commute)
    show "i < B * Suc j" using assms(2) by (simp add: mult.commute)
  qed
  then have "i = j * B + i mod B"
    using div_mult_mod_eq [of i B] by simp
  then show "i mod B = i - j * B" by linarith
qed

lemma embed_batches_run:
  fixes create :: "string list \<Rightarrow> 'w \<Rightarrow> (error + 'f::zero list list) \<times> 'w"
  assumes contract: "service_contract create"
    and bs: "0 < bs"
    and m: "m = batch_count texts bs"
    and jm: "j \<le> m"
    and acc: "acc = map (expected_row create texts bs w) [0 ..< min (j * nat bs) (length texts)]"
  shows "embed_batches create texts bs (map (\<lambda>j. j * nat bs) [j ..< m]) acc
            (world_before create texts bs w j)
           = (Inr (map (expected_row create texts bs w) [0 ..< length texts]),
              world_before create texts bs w m)"
  using jm acc
proof (induction "m - j" arbitrary: j acc)
  case 0
  then have jm: "j = m" by simp
  have "length texts \<le> m * nat bs"
    unfolding m batch_count_def using ceil_div_ge bs by simp
  with 0 jm show ?case by simp
next
  case (Suc d)
  define B where "B = nat bs"
  define n where "n = length texts"
  define f where "f = expected_row create texts bs w"
  have Bpos: "0 < B" using bs by (simp add: B_def)
  from Suc(2) have jlt: "j < m" by simp
  then have jB: "j * B < n"
    using ceil_div_less [OF Bpos, of j n] m by (simp add: B_def n_def batch_count_def)
  have acc_eq: "acc = map f [0 ..< j * B]"
    using Suc(4) jB by (simp add: B_def n_def f_def)
  define batch where "batch = batch_at texts bs j"
  have batch_len: "length batch = min B (n - j * B)"
    unfolding batch_def B_def n_def by (rule batch_at_length [OF bs])
  define wj where "wj = world_before create texts bs w j"
  obtain r w1 where cr: "create batch wj = (r, w1)" by (cases "create batch wj")
  have r: "outcome create texts bs w j = r"
    using cr by (simp add: outcome_def batch_def wj_def)
  have w1: "world_before create texts bs w (Suc j) = w1"
    using cr by (simp add: batch_def wj_def)
  define block where
    "block = (case r of Inr vs \<Rightarrow> vs | Inl e \<Rightarrow> map (\<lambda>_. zero_embedding) batch)"
  have block_len: "length block = length batch"
  proof (cases r)
    case (Inl e) then show ?thesis by (simp add: block_def)
  next
    case (Inr vs)
    with cr service_contractD(1) [OF contract, of batch wj vs w1] show ?thesis
      by (simp add: block_def)
  qed
  have block_nth: "block ! k = f (j * B + k)" if "k < length block" for k
  proof -
    have klt: "k < B" using that block_len batch_len by simp
    have dm: "(j * B + k) div B = j" "(j * B + k) mod B = k"
      using div_mod_in_batch [of j B "j * B + k"] klt by simp_all
    show ?thesis
      using that block_len r dm
      by (cases r) (simp_all add: f_def expected_row_def block_def B_def)
  qed
  have upt: "[j ..< m] = j # [Suc j ..< m]" using jlt by (simp add: upt_conv_Cons)
  have exc: "is_exception e" if "r = Inl e" for e
    using service_contractD(3) [OF contract, of batch wj e w1] cr that by simp
  have step: "embed_batches create texts bs (map (\<lambda>j. j * nat bs) [j ..< m]) acc wj
        = embed_batches create texts bs (map (\<lambda>j. j * nat bs) [Suc j ..< m]) (acc @ block) w1"
    using cr exc
    by (cases r) (simp_all add: upt batch_def batch_at_def block_def Let_def)
  have len': "length (acc @ block) = min (Suc j * B) n"
  proof -
    have "length (acc @ block) = j * B + min B (n - j * B)"
      using acc_eq block_len batch_len by simp
    also have "\<dots> = min (j * B + B) n" using jB by linarith
    finally show ?thesis by (simp add: add.commute)
  qed
  have acc': "acc @ block = map f [0 ..< min (Suc j * B) n]"
  proof (rule nth_equalityI)
    show "length (acc @ block) = length (map f [0 ..< min (Suc j * B) n])"
      using len' by simp
  next
    fix i assume i: "i < length (acc @ block)"
    then have ilt: "i < min (Suc j * B) n" using len' by simp
    show "(acc @ block) ! i = map f [0 ..< min (Suc j * B) n] ! i"
    proof (cases "i < j * B")
      case True
      then show ?thesis using ilt acc_eq by (simp add: nth_append)
    next
      case False
      then have k: "i - j * B < length block" using i acc_eq by simp
      from block_nth [OF k] False acc_eq ilt show ?thesis by (simp add: nth_append)
    qed
  qed
  have d: "d = m - Suc j" using Suc(2) by simp
  have sj: "Suc j \<le> m" using jlt by simp
  from Suc(1) [OF d sj, of "acc @ block"] acc' step w1
  show ?case by (simp add: B_def n_def f_def wj_def)
qed

lemma expected_row_length:
  fixes create :: "string list \<Rightarrow> 'w \<Rightarrow> (error + 'f::zero list list) \<times> 'w"
  assumes contract: "service_contract create" and bs: "0 < bs" and i: "i < length texts"
  shows "length (expected_row create texts bs w i) = 3072"
proof -
  define B where "B = nat bs"
  define j where "j = i div B"
  have Bpos: "0 < B" using bs by (simp add: B_def)
  have lo: "j * B \<le> i" unfolding j_def by simp
  have hi: "i mod B < B" using Bpos by simp
  have "i = j * B + i mod B" unfolding j_def by simp
  then have "i mod B < length texts - j * B" using i by linarith
  then have inb: "i mod B < length (batch_at texts bs j)"
    using hi by (simp add: batch_at_length [OF bs] B_def)
  obtain r w1 where cr:
    "create (batch_at texts bs j) (world_before create texts bs w j) = (r, w1)"
    by (cases "create (batch_at texts bs j) (world_before create texts bs w j)")
  have r: "outcome create texts bs w j = r" using cr by (simp add: outcome_def)
  show ?thesis
  proof (cases r)
    case (Inl e)
    with r show ?thesis
      by (simp add: expected_row_def j_def B_def zero_embedding_def)
  next
    case (Inr vs)
    have "length vs = length (batch_at texts bs j)"
      using service_contractD(1) [OF contract] cr Inr by simp
    with inb have "i mod B < length vs" by simp
    from service_contractD(2) [OF contract _ this] cr Inr
    have "length (vs ! (i mod B)) = 3072" by simp
    with r Inr show ?thesis by (simp add: expected_row_def j_def B_def)
  qed
qed

lemma np_array_uniform:
  assumes "\<forall>r \<in> set rows. length r = n"
  shows "np_array float32 rows = Inr (map (map float32) rows)"
  using assms by (cases rows) (auto simp: np_array_def list_all_iff)

lemma embed_texts_run:
  fixes create :: "string list \<Rightarrow> 'w \<Rightarrow> (error + 'f::zero list list) \<times> 'w"
  assumes "service_contract create" and "0 < batch_size"
  shows "embed_texts create float32 texts batch_size w
           = (Inr (map (\<lambda>i. map float32 (expected_row create texts batch_size w i))
                     [0 ..< length texts]),
              world_before create texts batch_size w (batch_count texts batch_size))"
proof -
  have eb: "embed_batches create texts batch_size (py_range (length texts) batch_size) [] w
      = (Inr (map (expected_row create texts batch_size w) [0 ..< length texts]),
         world_before create texts batch_size w (batch_count texts batch_size))"
    using embed_batches_run [OF assms refl, where j = 0 and acc = "[]" and texts = texts and w = w]
      assms(2)
    by (simp add: py_range_def batch_count_def)
  have "\<forall>r \<in> set (map (expected_row create texts batch_size w) [0 ..< length texts]).
      length r = 3072"
    using expected_row_length [OF assms] by auto
  from np_array_uniform [OF this, of float32] eb assms(2) show ?thesis
    by (simp add: embed_texts_def o_def)
qed

lemma digit_val_digit_char:
  assumes "d < 10"
  shows "digit_val (digit_char d) = d"
proof -
  from assms have "d \<in> {0, 1, 2, 3, 4, 5, 6, 7, 8, 9}" by auto
  then show ?thesis by (auto simp: digit_val_def digit_char_def)
qed

lemma int_of_digits_snoc: "int_of_digits (ds @ [c]) = 10 * int_of_digits ds + digit_val c"
  by (simp add: int_of_digits_def)

lemma int_of_digits_str_nat: "int_of_digits (str_nat n) = n"
proof (induction n rule: str_nat.induct)
  case (1 n)
  show ?case
  proof (cases "n < 10")
    case True
    then show ?thesis
      by (subst str_nat.simps) (simp add: int_of_digits_def digit_val_digit_char)
  next
    case False
    with 1 have "int_of_digits (str_nat (n div 10)) = n div 10" by simp
    with False show ?thesis
      by (subst str_nat.simps) (simp add: int_of_digits_snoc digit_val_digit_char)
  qed
qed

lemma inj_str_nat: "inj str_nat"
  by (rule inj_on_inverseI [where g = int_of_digits]) (rule int_of_digits_str_nat)

lemma dict_of_foldl:
  "foldl (\<lambda>m kv. m(fst kv \<mapsto> snd kv)) m0 kvs = m0 ++ map_of (rev kvs)"
proof (induction kvs arbitrary: m0)
  case Nil
  show ?case by simp
next
  case (Cons kv kvs)
  have "m0 ++ map_of (rev (kv # kvs)) = (m0 ++ map_of [kv]) ++ map_of (rev kvs)"
    by (simp add: map_of_append del: map_of.simps)
  also have "m0 ++ map_of [kv] = m0(fst kv \<mapsto> snd kv)"
    by (cases kv) simp
  finally show ?case using Cons [of "m0(fst kv \<mapsto> snd kv)"] by simp
qed

lemma dict_of_map_of: "dict_of kvs = map_of (rev kvs)"
  by (simp add: dict_of_def dict_of_foldl)

lemma dict_of_distinct:
  assumes "distinct (map fst kvs)"
  shows "card (dom (dict_of kvs)) = length kvs"
    and "\<And>i. i < length kvs \<Longrightarrow> dict_of kvs (fst (kvs ! i)) = Some (snd (kvs ! i))"
proof -
  have "dom (dict_of kvs) = set (map fst kvs)"
    by (simp add: dict_of_map_of dom_map_of_conv_image_fst)
  then show "card (dom (dict_of kvs)) = length kvs"
    using distinct_card [OF assms] by simp
next
  fix i assume i: "i < length kvs"
  have d: "distinct (map fst (rev kvs))" using assms by (simp add: rev_map [symmetric])
  have "(fst (kvs ! i), snd (kvs ! i)) \<in> set (rev kvs)" using i by simp
  from map_of_is_SomeI [OF d this]
  show "dict_of kvs (fst (kvs ! i)) = Some (snd (kvs ! i))"
    by (simp add: dict_of_map_of)
qed

lemma py_slice_to_take: "0 \<le> b \<Longrightarrow> py_slice_to s b = take (nat b) s"
  by (simp add: py_slice_to_def norm_index_def min_def)


lemma demo_create_contract: "service_contract demo_create"
  by (auto simp: service_contract_def demo_create_def ones_embedding_def list_all_iff
      split: if_splits)

lemma embed_texts_interrupted:
  "embed_texts interrupted_create float32 [''a'', ''b'', ''c''] 2 0 = (Inl KeyboardInterrupt, 1)"
  by (simp add: embed_texts_def py_range_def interrupted_create_def Let_def)

lemma state_of_snoc:
  "\<lparr> all_chunks = all_chunks (state_of pre) @ [c],
     metadata = metadata (state_of pre) @
       [(str_nat (id_counter (state_of pre)),
         \<lparr> c_source = fname, c_chunk_index = int i, c_text = py_slice_to c 4000,
           c_year = Some (extract_year_from_filename fname),
           c_report_year = Some (extract_year_from_filename fname) \<rparr>)],
     id_counter = id_counter (state_of pre) + 1 \<rparr>
   = state_of (pre @ [(fname, i, c)])"
  by (simp add: state_of_def enumerate_append_eq entry_of_def py_slice_to_take)

lemma add_chunks_state_of:
  "add_chunks fname (extract_year_from_filename fname) i cs (state_of pre)
     = state_of (pre @ map (\<lambda>(k, c). (fname, k, c)) (enumerate i cs))"
proof (induction cs arbitrary: i pre)
  case Nil
  show ?case by simp
next
  case (Cons c cs)
  have "add_chunks fname (extract_year_from_filename fname) i (c # cs) (state_of pre)
      = add_chunks fname (extract_year_from_filename fname) (Suc i) cs
          (state_of (pre @ [(fname, i, c)]))"
    by (simp only: add_chunks.simps state_of_snoc)
  also have "\<dots> = state_of ((pre @ [(fname, i, c)])
        @ map (\<lambda>(k, c). (fname, k, c)) (enumerate (Suc i) cs))"
    by (rule Cons.IH)
  finally show ?case by simp
qed

lemma process_files_state_of:
  assumes "only_exceptions pdf_files"
  shows "process_files pdf_files (state_of pre)
           = Some (Inr (state_of (pre @ corpus_chunks pdf_files)))"
  using assms
proof (induction pdf_files arbitrary: pre)
  case Nil
  show ?case by (simp add: corpus_chunks_def)
next
  case (Cons f rest)
  obtain fname extracted where f: "f = (fname, extracted)" by (cases f)
  from Cons.prems have rest: "only_exceptions rest" by (simp add: only_exceptions_def)
  show ?case
  proof (cases extracted)
    case (Inl e)
    with Cons.prems f have "is_exception e" by (simp add: only_exceptions_def)
    with Cons.IH [OF rest, of pre] f Inl show ?thesis
      by (simp add: corpus_chunks_def file_chunks_def)
  next
    case (Inr t)
    have "(300::int) < 1200" by simp
    from chunk_by_sections_total [OF this, of t] obtain chunks where
      c: "chunk_by_sections t 1200 300 = Some chunks" by blast
    from Cons.IH [OF rest, of "pre @ map (\<lambda>(k, c). (fname, k, c)) (enumerate 0 chunks)"]
      f Inr c
    show ?thesis
      by (simp add: add_chunks_state_of corpus_chunks_def file_chunks_def)
  qed
qed

lemma state_of_Nil: "state_of [] = \<lparr> all_chunks = [], metadata = [], id_counter = 0 \<rparr>"
  by (simp add: state_of_def)

lemma metadata_keys:
  "map fst (metadata (state_of xs)) = map str_nat [0 ..< length xs]"
  by (rule nth_equalityI) (simp_all add: state_of_def nth_enumerate_eq)

lemma metadata_nth:
  "i < length xs \<Longrightarrow> metadata (state_of xs) ! i = (str_nat i, entry_of (xs ! i))"
  by (simp add: state_of_def nth_enumerate_eq)

lemma split_blank_lines_plain:
  "newline \<notin> set xs \<Longrightarrow> split_blank_lines xs = [xs]"
  by (induction xs rule: split_blank_lines.induct) auto

lemma split_blank_lines_sep:
  "newline \<notin> set xs \<Longrightarrow>
   split_blank_lines (xs @ newline # newline # ys) = xs # split_blank_lines ys"
proof (induction xs)
  case Nil
  show ?case by simp
next
  case (Cons x xs)
  then show ?case by (cases xs) auto
qed

lemma strip_id:
  assumes "s \<noteq> []" and "\<not> isspace (hd s)" and "\<not> isspace (last s)"
  shows "strip s = s"
proof -
  have a: "dropWhile isspace s = s"
    using assms(2) by (simp add: dropWhile_eq_self_iff)
  have "dropWhile isspace (rev s) = rev s"
    using assms(1,3) by (simp add: dropWhile_eq_self_iff hd_rev)
  with a show ?thesis by (simp add: strip_def)
qed

lemma not_space: "\<not> isspace CHR ''a''" "\<not> isspace CHR ''b''"
  by (simp_all add: isspace_def)

lemma long_text_chunks:
  "chunk_by_sections long_text 1200 300
     = Some [replicate 700 CHR ''a'',
             replicate 300 CHR ''a'' @ [newline, newline] @ replicate 700 CHR ''b'']"
proof -
  have sp: "split_blank_lines long_text = [replicate 700 CHR ''a'', replicate 700 CHR ''b'']"
    unfolding long_text_def
    using split_blank_lines_sep [of "replicate 700 CHR ''a''" "replicate 700 CHR ''b''"]
      split_blank_lines_plain [of "replicate 700 CHR ''b''"]
    by (simp add: newline_def)
  have s1: "strip (replicate 700 CHR ''a'') = replicate 700 CHR ''a''"
    and s2: "strip (replicate 700 CHR ''b'') = replicate 700 CHR ''b''"
    and s3: "strip (replicate 300 CHR ''a'' @ newline # newline # replicate 700 CHR ''b'')
        = replicate 300 CHR ''a'' @ newline # newline # replicate 700 CHR ''b''"
    by (simp_all add: strip_id not_space)
  have ov: "py_slice_from (replicate 700 CHR ''a'') (- 300) = replicate 300 CHR ''a''"
    by (simp add: py_slice_from_def norm_index_def)
  have pl: "paragraph_loop 1200 300 [replicate 700 CHR ''a'', replicate 700 CHR ''b''] ([], [])
      = ([replicate 700 CHR ''a''],
         replicate 300 CHR ''a'' @ newline # newline # replicate 700 CHR ''b'')"
    by (simp add: s1 s2 ov Let_def)
  show ?thesis
    by (simp only: chunk_by_sections_def sp pl) (simp add: s3)
qed

lemma demo_corpus:
  "corpus_chunks demo_files
     = [(''report_2022.pdf'', 0, replicate 700 CHR ''a''),
        (''report_2022.pdf'', 1,
           replicate 300 CHR ''a'' @ [newline, newline] @ replicate 700 CHR ''b''),
        (''notes_2021.pdf'', 0, ''Total Revenue was 100M in 2021.'')]"
proof -
  have short: "chunk_by_sections ''Total Revenue was 100M in 2021.'' 1200 300
      = Some [''Total Revenue was 100M in 2021.'']"
    by (simp add: chunk_by_sections_def strip_def isspace_def newline_def)
  show ?thesis
    by (simp add: corpus_chunks_def demo_files_def file_chunks_def long_text_chunks short
        enumerate_simps)
qed

lemma process_files_interrupted:
  "process_files [(''a.pdf'', Inl KeyboardInterrupt), (''b.pdf'', Inr ''text'')]
       \<lparr> all_chunks = [], metadata = [], id_counter = 0 \<rparr>
     = Some (Inl KeyboardInterrupt)"
  by simp

text \<open>
  Claim C6.  Given an embedding service that keeps its contract, and a positive batch
  size (the default is 100), \<^verbatim>\<open>embed_texts\<close> returns exactly one row per input text,
  in input order, whatever calls fail.  Row \<open>i\<close> has 3072 components; it is the
  single-precision copy of the vector returned for text \<open>i\<close> when the call on its
  batch succeeded in this run, and the zero vector when that call raised.  So the
  number of rows always equals the number of texts.
\<close>

theorem embed_texts_one_row_per_text:
  fixes create :: "string list \<Rightarrow> 'w \<Rightarrow> (error + 'f::zero list list) \<times> 'w"
  assumes "service_contract create" and "0 < batch_size"
  shows "\<exists>rows. embed_texts create float32 texts batch_size w
              = (Inr rows, world_before create texts batch_size w (batch_count texts batch_size))
          \<and> length rows = length texts
          \<and> (\<forall>i < length texts.
                length (rows ! i) = 3072
                \<and> (\<forall>vs. outcome create texts batch_size w (i div nat batch_size) = Inr vs
                      \<longrightarrow> rows ! i = map float32 (vs ! (i mod nat batch_size)))
                \<and> (\<forall>e. outcome create texts batch_size w (i div nat batch_size) = Inl e
                      \<longrightarrow> rows ! i = replicate 3072 (float32 0)))"
proof -
  let ?rows = "map (\<lambda>i. map float32 (expected_row create texts batch_size w i))
                 [0 ..< length texts]"
  have run: "embed_texts create float32 texts batch_size w
      = (Inr ?rows, world_before create texts batch_size w (batch_count texts batch_size))"
    by (rule embed_texts_run [OF assms])
  have row: "length (?rows ! i) = 3072
        \<and> (\<forall>vs. outcome create texts batch_size w (i div nat batch_size) = Inr vs
              \<longrightarrow> ?rows ! i = map float32 (vs ! (i mod nat batch_size)))
        \<and> (\<forall>e. outcome create texts batch_size w (i div nat batch_size) = Inl e
              \<longrightarrow> ?rows ! i = replicate 3072 (float32 0))"
    if i: "i < length texts" for i
  proof -
    have nth: "?rows ! i = map float32 (expected_row create texts batch_size w i)"
      using i by simp
    show ?thesis
      unfolding nth using expected_row_length [OF assms i, of w]
      by (auto simp: expected_row_def zero_embedding_def)
  qed
  from run row show ?thesis by (intro exI [of _ ?rows]) simp
qed

theorem embed_texts_one_row_per_text_witness:
  "(service_contract demo_create \<and> (0::int) < 2)
   \<and> outcome demo_create [''a'', ''b'', ''c''] 2 0 0 = Inl (ExternalError ''quota exceeded'')
   \<and> outcome demo_create [''a'', ''b'', ''c''] 2 0 1 = Inr [ones_embedding]
   \<and> (\<exists>rows. embed_texts demo_create (\<lambda>x. x) [''a'', ''b'', ''c''] 2 0 = (Inr rows, 2)
          \<and> length rows = length [''a'', ''b'', ''c'']
          \<and> rows ! 0 = replicate 3072 0 \<and> rows ! 1 = replicate 3072 0
          \<and> rows ! 2 = ones_embedding)
   \<and> embed_texts demo_create (\<lambda>x. x) [''a'', ''b'', ''c''] 2 0
        = (Inr [zero_embedding, zero_embedding, ones_embedding], 2)"
proof -
  have ev: "embed_texts demo_create (\<lambda>x. x) [''a'', ''b'', ''c''] 2 0
        = (Inr [zero_embedding, zero_embedding, ones_embedding], 2)"
    by (simp add: embed_texts_def py_range_def demo_create_def py_slice_def norm_index_def
        np_array_def zero_embedding_def ones_embedding_def Let_def)
  have o0: "outcome demo_create [''a'', ''b'', ''c''] 2 0 0 = Inl (ExternalError ''quota exceeded'')"
    by (simp add: outcome_def demo_create_def)
  have o1: "outcome demo_create [''a'', ''b'', ''c''] 2 0 1 = Inr [ones_embedding]"
    by (simp add: outcome_def demo_create_def batch_at_def py_slice_def norm_index_def)
  have bc: "batch_count [''a'', ''b'', ''c''] 2 = 2"
    by (simp add: batch_count_def)
  from embed_texts_one_row_per_text
    [OF demo_create_contract, of 2 "\<lambda>x. x" "[''a'', ''b'', ''c'']" 0]
  obtain rows where
    r: "embed_texts demo_create (\<lambda>x. x) [''a'', ''b'', ''c''] 2 0
          = (Inr rows, world_before demo_create [''a'', ''b'', ''c''] 2 0 2)"
    and len: "length rows = length [''a'', ''b'', ''c'']"
    and rows: "\<forall>i < length [''a'', ''b'', ''c''].
          length (rows ! i) = 3072
          \<and> (\<forall>vs. outcome demo_create [''a'', ''b'', ''c''] 2 0 (i div nat 2) = Inr vs
                \<longrightarrow> rows ! i = map (\<lambda>x. x) (vs ! (i mod nat 2)))
          \<and> (\<forall>e. outcome demo_create [''a'', ''b'', ''c''] 2 0 (i div nat 2) = Inl e
                \<longrightarrow> rows ! i = replicate 3072 ((\<lambda>x. x) 0))"
    unfolding bc by auto
  from rows [rule_format, of 0] o0 have r0: "rows ! 0 = replicate 3072 0" by simp
  from rows [rule_format, of 1] o0 have r1: "rows ! 1 = replicate 3072 0" by simp
  from rows [rule_format, of 2] o1 have r2: "rows ! 2 = ones_embedding" by simp
  from r ev have w2: "world_before demo_create [''a'', ''b'', ''c''] 2 0 2 = 2" by simp
  from r len r0 r1 r2 w2 ev o0 o1 demo_create_contract show ?thesis by auto
qed


text \<open>
  Claim C3.  For every ingestion run in which each unreadable file fails with an
  \<^verbatim>\<open>Exception\<close> and the embedding service keeps its contract, the loop ends with the
  chunks of all readable files in corpus order, chunk number \<open>n\<close> under the id \<open>str(n)\<close>
  (ids 0, 1, 2, ... across the whole corpus).  If the run reaches the index build,
  the number of rows, of chunks and of metadata keys agree, the entry under key
  \<open>str(i)\<close> is the metadata of chunk \<open>i\<close> (its file, its position in the file, its
  text cut at 4000 characters), and row \<open>i\<close> is the embedding of chunk \<open>i\<close>.
\<close>

theorem ingest_rows_aligned:
  fixes create :: "string list \<Rightarrow> 'w \<Rightarrow> (error + 'f::zero list list) \<times> 'w"
  assumes "service_contract create"
    and "only_exceptions pdf_files"
    and "corpus = corpus_chunks pdf_files"
    and "texts = map (\<lambda>x. snd (snd x)) corpus"
  shows "process_files pdf_files \<lparr> all_chunks = [], metadata = [], id_counter = 0 \<rparr>
           = Some (Inr (state_of corpus))
       \<and> all_chunks (state_of corpus) = texts
       \<and> map fst (metadata (state_of corpus)) = map str_nat [0 ..< length corpus]
       \<and> (pdf_files \<noteq> [] \<and> corpus \<noteq> [] \<longrightarrow>
            (\<exists>rows meta.
               ingest_main create float32 pdf_files w
                 = Some (Inr (rows, meta),
                         world_before create texts 100 w (batch_count texts 100))
               \<and> length rows = length corpus
               \<and> card (dom meta) = length corpus
               \<and> (\<forall>i < length corpus.
                     meta (str_nat i) = Some (entry_of (corpus ! i))
                     \<and> c_text (entry_of (corpus ! i)) = take 4000 (texts ! i)
                     \<and> length (c_text (entry_of (corpus ! i))) \<le> 4000
                     \<and> rows ! i = map float32 (expected_row create texts 100 w i))))"
proof -
  have ps: "process_files pdf_files \<lparr> all_chunks = [], metadata = [], id_counter = 0 \<rparr>
      = Some (Inr (state_of corpus))"
    using process_files_state_of [OF assms(2), of "[]"] assms(3) by (simp add: state_of_Nil)
  have ac: "all_chunks (state_of corpus) = texts"
    by (simp add: state_of_def assms(4))
  have n: "length texts = length corpus" by (simp add: assms(4))
  have keys: "map fst (metadata (state_of corpus)) = map str_nat [0 ..< length corpus]"
    by (rule metadata_keys)
  have dist: "distinct (map fst (metadata (state_of corpus)))"
    unfolding keys using inj_str_nat by (simp add: distinct_map inj_on_def)
  have lm: "length (metadata (state_of corpus)) = length corpus"
    by (simp add: state_of_def)
  define meta where "meta = dict_of (metadata (state_of corpus))"
  define rows where
    "rows = map (\<lambda>i. map float32 (expected_row create texts 100 w i)) [0 ..< length texts]"
  have main: "ingest_main create float32 pdf_files w
        = Some (Inr (rows, meta), world_before create texts 100 w (batch_count texts 100))
      \<and> length rows = length corpus
      \<and> card (dom meta) = length corpus
      \<and> (\<forall>i < length corpus.
            meta (str_nat i) = Some (entry_of (corpus ! i))
            \<and> c_text (entry_of (corpus ! i)) = take 4000 (texts ! i)
            \<and> length (c_text (entry_of (corpus ! i))) \<le> 4000
            \<and> rows ! i = map float32 (expected_row create texts 100 w i))"
    if ne: "pdf_files \<noteq> []" "corpus \<noteq> []"
  proof -
    have "(0::int) < 100" by simp
    from embed_texts_run [OF assms(1) this, of float32 texts w]
    have et: "embed_texts create float32 texts 100 w
        = (Inr rows, world_before create texts 100 w (batch_count texts 100))"
      by (simp add: rows_def)
    have tne: "texts \<noteq> []" using ne(2) by (simp add: assms(4))
    have run: "ingest_main create float32 pdf_files w
        = Some (Inr (rows, meta), world_before create texts 100 w (batch_count texts 100))"
      using ne(1) ps ac tne et by (simp add: ingest_main_def build_index_def meta_def)
    have len: "length rows = length corpus" by (simp add: rows_def n)
    have card: "card (dom meta) = length corpus"
      unfolding meta_def using dict_of_distinct(1) [OF dist] lm by simp
    have per: "meta (str_nat i) = Some (entry_of (corpus ! i))
          \<and> c_text (entry_of (corpus ! i)) = take 4000 (texts ! i)
          \<and> length (c_text (entry_of (corpus ! i))) \<le> 4000
          \<and> rows ! i = map float32 (expected_row create texts 100 w i)"
      if i: "i < length corpus" for i
    proof -
      have "meta (str_nat i) = Some (entry_of (corpus ! i))"
        unfolding meta_def
        using dict_of_distinct(2) [OF dist, of i] i lm metadata_nth [OF i] by simp
      moreover have "c_text (entry_of (corpus ! i)) = take 4000 (texts ! i)"
        using i by (cases "corpus ! i") (simp add: entry_of_def assms(4))
      moreover have "rows ! i = map float32 (expected_row create texts 100 w i)"
        using i n by (simp add: rows_def)
      ultimately show ?thesis by simp
    qed
    from run len card per show ?thesis by blast
  qed
  from ps ac keys main show ?thesis by blast
qed


theorem ingest_rows_aligned_witness:
  "(service_contract demo_create \<and> only_exceptions demo_files)
   \<and> corpus_chunks demo_files
       = [(''report_2022.pdf'', 0, replicate 700 CHR ''a''),
          (''report_2022.pdf'', 1,
             replicate 300 CHR ''a'' @ [newline, newline] @ replicate 700 CHR ''b''),
          (''notes_2021.pdf'', 0, ''Total Revenue was 100M in 2021.'')]
   \<and> (\<exists>rows meta w'.
         ingest_main demo_create (\<lambda>x. x) demo_files 1 = Some (Inr (rows, meta), w')
         \<and> length rows = 3 \<and> card (dom meta) = 3
         \<and> rows ! 0 = ones_embedding \<and> rows ! 1 = ones_embedding
         \<and> rows ! 2 = ones_embedding
         \<and> meta ''0'' = Some \<lparr> c_source = ''report_2022.pdf'', c_chunk_index = 0,
               c_text = replicate 700 CHR ''a'',
               c_year = Some 2022, c_report_year = Some 2022 \<rparr>
         \<and> meta ''1'' = Some \<lparr> c_source = ''report_2022.pdf'', c_chunk_index = 1,
               c_text = replicate 300 CHR ''a'' @ [newline, newline] @ replicate 700 CHR ''b'',
               c_year = Some 2022, c_report_year = Some 2022 \<rparr>
         \<and> meta ''2'' = Some \<lparr> c_source = ''notes_2021.pdf'', c_chunk_index = 0,
               c_text = ''Total Revenue was 100M in 2021.'',
               c_year = Some 2021, c_report_year = Some 2021 \<rparr>)"
proof -
  define corpus where "corpus = corpus_chunks demo_files"
  define texts where "texts = map (\<lambda>x. snd (snd x)) corpus"
  have oe: "only_exceptions demo_files"
    by (simp add: only_exceptions_def demo_files_def)
  have c: "corpus = [(''report_2022.pdf'', 0, replicate 700 CHR ''a''),
        (''report_2022.pdf'', 1,
           replicate 300 CHR ''a'' @ [newline, newline] @ replicate 700 CHR ''b''),
        (''notes_2021.pdf'', 0, ''Total Revenue was 100M in 2021.'')]"
    unfolding corpus_def by (rule demo_corpus)
  have ne: "demo_files \<noteq> [] \<and> corpus \<noteq> []" by (simp add: c demo_files_def)
  have tl: "length texts = 3" by (simp add: texts_def c)
  have yrs: "extract_year_from_filename ''report_2022.pdf'' = 2022"
    "extract_year_from_filename ''notes_2021.pdf'' = 2021"
    by (simp_all add: extract_year_from_filename_def is_digit_def int_of_digits_def digit_val_def)
  have ba: "batch_at texts 100 0 = texts"
    using tl by (simp add: batch_at_def py_slice_def norm_index_def)
  have oc: "outcome demo_create texts 100 (Suc 0) 0 = Inr (map (\<lambda>_. ones_embedding) texts)"
    by (simp add: outcome_def ba demo_create_def)
  have er: "expected_row demo_create texts 100 1 i = ones_embedding" if "i < 3" for i
    using that tl by (simp add: expected_row_def oc)
  have keys: "str_nat 0 = ''0''" "str_nat 1 = ''1''" "str_nat 2 = ''2''"
    by (simp_all add: str_nat.simps digit_char_def)
  from ingest_rows_aligned [OF demo_create_contract oe corpus_def texts_def, of "\<lambda>x. x" 1] ne
  obtain rows meta where
    run: "ingest_main demo_create (\<lambda>x. x) demo_files 1
        = Some (Inr (rows, meta), world_before demo_create texts 100 1 (batch_count texts 100))"
    and len: "length rows = length corpus"
    and card: "card (dom meta) = length corpus"
    and per: "\<forall>i < length corpus.
        meta (str_nat i) = Some (entry_of (corpus ! i))
        \<and> c_text (entry_of (corpus ! i)) = take 4000 (texts ! i)
        \<and> length (c_text (entry_of (corpus ! i))) \<le> 4000
        \<and> rows ! i = map (\<lambda>x. x) (expected_row demo_create texts 100 1 i)"
    by blast
  have lc: "length corpus = 3" by (simp add: c)
  from per [rule_format, of 0] per [rule_format, of 1] per [rule_format, of 2]
  have m: "meta ''0'' = Some (entry_of (corpus ! 0))" "meta ''1'' = Some (entry_of (corpus ! 1))"
      "meta ''2'' = Some (entry_of (corpus ! 2))"
    and r: "rows ! 0 = ones_embedding" "rows ! 1 = ones_embedding" "rows ! 2 = ones_embedding"
    using lc keys er by simp_all
  have e: "entry_of (corpus ! 0) = \<lparr> c_source = ''report_2022.pdf'', c_chunk_index = 0,
               c_text = replicate 700 CHR ''a'',
               c_year = Some 2022, c_report_year = Some 2022 \<rparr>"
      "entry_of (corpus ! 1) = \<lparr> c_source = ''report_2022.pdf'', c_chunk_index = 1,
               c_text = replicate 300 CHR ''a'' @ [newline, newline] @ replicate 700 CHR ''b'',
               c_year = Some 2022, c_report_year = Some 2022 \<rparr>"
      "entry_of (corpus ! 2) = \<lparr> c_source = ''notes_2021.pdf'', c_chunk_index = 0,
               c_text = ''Total Revenue was 100M in 2021.'',
               c_year = Some 2021, c_report_year = Some 2021 \<rparr>"
    by (simp_all add: c entry_of_def yrs)
  from run len card lc m r e demo_create_contract oe c
  show ?thesis unfolding corpus_def by auto
qed

section \<open>Properties of retrieval\<close>

lemma resolved_simps:
  "resolved meta [] = []"
  "resolved meta (idx # rest) =
     (case meta (str_int idx) of None \<Rightarrow> resolved meta rest
                                | Some c \<Rightarrow> c # resolved meta rest)"
  by (simp_all add: resolved_def map_filter_simps split: option.splits)

lemma retrieve_loop_step:
  "meta (str_int idx) = Some chunk \<Longrightarrow>
   retrieve_loop meta target_year k (idx # rest) results =
     (let results' = (if accepts target_year chunk then results @ [chunk] else results)
      in if int (length results') \<ge> k then results'
         else retrieve_loop meta target_year k rest results')"
  by (cases target_year) (auto simp: accepts_def Let_def)

lemma retrieve_loop_pos:
  assumes "0 < k"
  shows "int (length results) < k \<Longrightarrow>
         retrieve_loop meta target_year k ids results
           = take (nat k) (results @ filter (accepts target_year) (resolved meta ids))"
proof (induction ids arbitrary: results)
  case Nil
  then show ?case by (simp add: resolved_simps)
next
  case (Cons idx rest)
  show ?case
  proof (cases "meta (str_int idx)")
    case None
    with Cons show ?thesis by (simp add: resolved_simps)
  next
    case (Some chunk)
    show ?thesis
    proof (cases "accepts target_year chunk")
      case False
      with Some Cons show ?thesis
        by (simp add: retrieve_loop_step resolved_simps Let_def del: retrieve_loop.simps)
    next
      case True
      show ?thesis
      proof (cases "int (length (results @ [chunk])) \<ge> k")
        case full: True
        with Cons.prems have "length (results @ [chunk]) = nat k" by simp
        then have "take (nat k) ((results @ [chunk]) @ filter (accepts target_year) (resolved meta rest))
            = results @ [chunk]"
          by (metis append_eq_conv_conj)
        with Some True full show ?thesis
          by (simp add: retrieve_loop_step resolved_simps Let_def del: retrieve_loop.simps)
      next
        case False
        then have "int (length (results @ [chunk])) < k" by simp
        from Cons.IH [OF this] Some True False show ?thesis
          by (simp add: retrieve_loop_step resolved_simps Let_def del: retrieve_loop.simps)
      qed
    qed
  qed
qed

lemma retrieve_loop_nonpos:
  assumes "k \<le> 0"
  shows "length (retrieve_loop meta target_year k ids []) \<le> 1"
proof (induction ids)
  case Nil
  show ?case by simp
next
  case (Cons idx rest)
  show ?case
  proof (cases "meta (str_int idx)")
    case None
    with Cons show ?thesis by simp
  next
    case (Some chunk)
    with assms show ?thesis
      by (simp add: retrieve_loop_step Let_def del: retrieve_loop.simps)
  qed
qed

lemma retrieve_slice:
  "py_slice_to (retrieve_loop meta target_year k ids []) k
     = take (nat k) (filter (accepts target_year) (resolved meta ids))"
proof (cases "0 < k")
  case True
  then have "retrieve_loop meta target_year k ids []
      = take (nat k) (filter (accepts target_year) (resolved meta ids))"
    using retrieve_loop_pos [OF True, of "[]" meta target_year ids] by simp
  with True show ?thesis by (auto simp: py_slice_to_def norm_index_def min_def)
next
  case False
  then have k: "k \<le> 0" by simp
  from retrieve_loop_nonpos [OF k, of meta target_year ids]
  have "norm_index (length (retrieve_loop meta target_year k ids [])) k = 0"
    using k by (auto simp: norm_index_def)
  with k show ?thesis by (simp add: py_slice_to_def)
qed

lemma retrieve_ok:
  assumes "index_file env w = Some index"
    and "meta_file env w = Some meta"
    and "embeddings_create env [query] w = (Inr (q_emb # others), w')"
    and "index_search env index q_emb (if truthy target_year then k * 3 else k) = Inr neighbors"
  shows "retrieve env query k target_year w
     = (Inr (take (nat k) (filter (accepts target_year) (resolved meta (map snd neighbors)))), w')"
  using assms
  by (simp add: retrieve_def load_index_def load_meta_def embed_query_def retrieve_slice Let_def)

lemma resolved_pairs:
  "map Some (resolved meta (map snd neighbors))
     = map (\<lambda>p. meta (str_int (snd p))) (filter (\<lambda>p. meta (str_int (snd p)) \<noteq> None) neighbors)"
  by (induction neighbors) (auto simp: resolved_simps split: option.splits)

lemma accepts_falsy: "\<not> truthy target_year \<Longrightarrow> accepts target_year c"
  by (auto simp: truthy_def accepts_def split: option.splits)

lemma accepts_year: "y \<noteq> 0 \<Longrightarrow> accepts (Some y) c \<longleftrightarrow> \<bar>chunk_year c - y\<bar> \<le> 1"
  by (simp add: accepts_def)

lemma retrieve_loop_zero_none:
  "retrieve_loop meta (Some 0) k ids results = retrieve_loop meta None k ids results"
  by (induction ids arbitrary: results) (simp_all add: Let_def split: option.splits)

lemma str_int_values:
  "str_int 0 = ''0''" "str_int 1 = ''1''" "str_int 2 = ''2''" "str_int 3 = ''3''"
  "str_int 7 = ''7''" "str_int (- 1) = ''-1''"
  by (simp_all add: str_int_def str_nat.simps digit_char_def)

lemma demo_resolved:
  "resolved demo_meta (map snd demo_neighbors) = [chunk_2019, chunk_2022, chunk_2021]"
  by (simp add: resolved_simps demo_neighbors_def demo_meta_def str_int_values)

lemma demo_years:
  "chunk_year chunk_2019 = 2019" "chunk_year chunk_2021 = 2021" "chunk_year chunk_2022 = 2022"
  by (simp_all add: chunk_year_def chunk_2019_def chunk_2021_def chunk_2022_def)

text \<open>
  Claim C2.  For every query, every \<open>k > 0\<close> and every non-zero target year \<open>y\<close>, when the
  index and metadata load, the query embeds and the search at depth \<open>3k\<close> returns,
  \<^verbatim>\<open>retrieve(query, k, target_year=y)\<close> returns at most \<open>k\<close> chunks, each with
  \<open>|chunk.year - y| \<le> 1\<close>: the first \<open>k\<close> such chunks among the searched neighbours, and
  all of them (fewer than \<open>k\<close>, nothing else added) when fewer than \<open>k\<close> occur.
\<close>

theorem retrieve_year_filter:
  assumes "index_file env w = Some index"
    and "meta_file env w = Some meta"
    and "embeddings_create env [query] w = (Inr (q_emb # others), w')"
    and "index_search env index q_emb (k * 3) = Inr neighbors"
    and "0 < k" and "y \<noteq> 0"
  shows "\<exists>results. retrieve env query k (Some y) w = (Inr results, w')
           \<and> int (length results) \<le> k
           \<and> (\<forall>c \<in> set results. \<bar>chunk_year c - y\<bar> \<le> 1)
           \<and> results = take (nat k)
                 (filter (\<lambda>c. \<bar>chunk_year c - y\<bar> \<le> 1) (resolved meta (map snd neighbors)))
           \<and> (int (length (filter (\<lambda>c. \<bar>chunk_year c - y\<bar> \<le> 1)
                               (resolved meta (map snd neighbors)))) < k
                \<longrightarrow> int (length results) < k
                    \<and> results = filter (\<lambda>c. \<bar>chunk_year c - y\<bar> \<le> 1)
                                  (resolved meta (map snd neighbors)))"
proof -
  let ?valid = "filter (\<lambda>c. \<bar>chunk_year c - y\<bar> \<le> 1) (resolved meta (map snd neighbors))"
  have t: "truthy (Some y)" using assms(6) by (simp add: truthy_def)
  have f: "filter (accepts (Some y)) (resolved meta (map snd neighbors)) = ?valid"
    by (intro filter_cong refl) (simp add: accepts_year [OF assms(6)])
  have r: "retrieve env query k (Some y) w = (Inr (take (nat k) ?valid), w')"
    using retrieve_ok [OF assms(1-3), of "Some y" k neighbors] assms(4) t f by simp
  have len: "int (length (take (nat k) ?valid)) \<le> k" using assms(5) by simp
  have yrs: "\<forall>c \<in> set (take (nat k) ?valid). \<bar>chunk_year c - y\<bar> \<le> 1"
    by (auto dest: in_set_takeD)
  have few: "int (length ?valid) < k \<longrightarrow>
      int (length (take (nat k) ?valid)) < k \<and> take (nat k) ?valid = ?valid"
    by auto
  from r len yrs few show ?thesis by blast
qed

theorem retrieve_year_filter_witness:
  "(index_file (scripted_env []) 0 = Some ()
    \<and> meta_file (scripted_env []) 0 = Some demo_meta
    \<and> embeddings_create (scripted_env []) [''revenue 2022''] 0 = (Inr ([1] # []), 0)
    \<and> index_search (scripted_env []) () [1] (2 * 3) = Inr demo_neighbors
    \<and> index_search (scripted_env []) () [1] (3 * 3) = Inr demo_neighbors
    \<and> (0::int) < 2 \<and> (0::int) < 3 \<and> (2022::int) \<noteq> 0)
   \<and> retrieve (scripted_env []) ''revenue 2022'' 2 (Some 2022) 0
        = (Inr [chunk_2022, chunk_2021], 0)
   \<and> resolved demo_meta (map snd demo_neighbors) = [chunk_2019, chunk_2022, chunk_2021]
   \<and> retrieve (scripted_env []) ''revenue 2022'' 3 (Some 2022) 0
        = (Inr [chunk_2022, chunk_2021], 0)"
proof -
  have h1: "index_file (scripted_env []) 0 = Some ()"
    and h2: "meta_file (scripted_env []) 0 = Some demo_meta"
    and h3: "embeddings_create (scripted_env []) [''revenue 2022''] 0 = (Inr ([1] # []), 0)"
    and h4: "index_search (scripted_env []) () [1] (2 * 3) = Inr demo_neighbors"
    and h4': "index_search (scripted_env []) () [1] (3 * 3) = Inr demo_neighbors"
    by (simp_all add: scripted_env_def demo_neighbors_def)
  have h5: "(0::int) < 2" and h5': "(0::int) < 3" and h6: "(2022::int) \<noteq> 0" by simp_all
  have a: "retrieve (scripted_env []) ''revenue 2022'' 2 (Some 2022) 0
        = (Inr [chunk_2022, chunk_2021], 0)"
    using retrieve_year_filter [OF h1 h2 h3 h4 h5 h6] by (simp add: demo_resolved demo_years)
  have b: "retrieve (scripted_env []) ''revenue 2022'' 3 (Some 2022) 0
        = (Inr [chunk_2022, chunk_2021], 0)"
    using retrieve_year_filter [OF h1 h2 h3 h4' h5' h6] by (simp add: demo_resolved demo_years)
  from a b h1 h2 h3 h4 h4' demo_resolved show ?thesis by simp
qed

text \<open>
  Claim C8.  For every query and \<open>k\<close>, \<^verbatim>\<open>retrieve\<close> uses the result of the index search
  at depth \<open>3k\<close> when the target year is set (a year that Python counts as true, that
  is, neither \<^verbatim>\<open>None\<close> nor \<open>0\<close>) and at depth \<open>k\<close> otherwise, and walks the neighbours in
  the order the search returned them.  With no target year the result is the first
  \<open>k\<close> neighbours that resolve in the metadata, in that order, so at most \<open>k\<close> of them
  (for \<open>k \<ge> 0\<close>) and in non-decreasing distance when the search returns them so.
\<close>

theorem retrieve_depth_and_order:
  fixes env :: "('w, 'f, 'd::linorder, 'i) env"
  assumes "index_file env w = Some index"
    and "meta_file env w = Some meta"
    and "embeddings_create env [query] w = (Inr (q_emb # others), w')"
    and "index_search env index q_emb (if truthy target_year then k * 3 else k) = Inr neighbors"
  shows "\<exists>results. retrieve env query k target_year w = (Inr results, w')
           \<and> results = take (nat k)
                 (filter (accepts target_year) (resolved meta (map snd neighbors)))
           \<and> (0 \<le> k \<longrightarrow> int (length results) \<le> k)
           \<and> (\<not> truthy target_year \<longrightarrow>
                (\<exists>ps. ps = take (nat k)
                             (filter (\<lambda>p. meta (str_int (snd p)) \<noteq> None) neighbors)
                    \<and> map Some results = map (\<lambda>p. meta (str_int (snd p))) ps
                    \<and> (sorted (map fst neighbors) \<longrightarrow> sorted (map fst ps))))"
proof -
  let ?res = "take (nat k) (filter (accepts target_year) (resolved meta (map snd neighbors)))"
  let ?ps = "take (nat k) (filter (\<lambda>p. meta (str_int (snd p)) \<noteq> None) neighbors)"
  have r: "retrieve env query k target_year w = (Inr ?res, w')"
    by (rule retrieve_ok [OF assms])
  have len: "0 \<le> k \<longrightarrow> int (length ?res) \<le> k" by auto
  have ord: "map Some ?res = map (\<lambda>p. meta (str_int (snd p))) ?ps
        \<and> (sorted (map fst neighbors) \<longrightarrow> sorted (map fst ?ps))"
    if nt: "\<not> truthy target_year"
  proof
    have "filter (accepts target_year) (resolved meta (map snd neighbors))
        = resolved meta (map snd neighbors)"
      using accepts_falsy [OF nt] by simp
    then have "map Some ?res = take (nat k) (map Some (resolved meta (map snd neighbors)))"
      by (simp add: take_map)
    also have "\<dots> = map (\<lambda>p. meta (str_int (snd p))) ?ps"
      unfolding resolved_pairs by (simp only: take_map)
    finally show "map Some ?res = map (\<lambda>p. meta (str_int (snd p))) ?ps" .
  next
    show "sorted (map fst neighbors) \<longrightarrow> sorted (map fst ?ps)"
    proof
      assume "sorted (map fst neighbors)"
      then have "sorted (map fst (filter (\<lambda>p. meta (str_int (snd p)) \<noteq> None) neighbors))"
        by (rule sorted_filter)
      then have "sorted (take (nat k)
          (map fst (filter (\<lambda>p. meta (str_int (snd p)) \<noteq> None) neighbors)))"
        by (rule sorted_wrt_take)
      then show "sorted (map fst ?ps)"
        by (simp only: take_map)
    qed
  qed
  from r len ord show ?thesis by blast
qed

theorem retrieve_depth_and_order_witness:
  "(index_file (scripted_env []) 0 = Some ()
    \<and> meta_file (scripted_env []) 0 = Some demo_meta
    \<and> embeddings_create (scripted_env []) [''revenue''] 0 = (Inr ([1] # []), 0)
    \<and> index_search (scripted_env []) () [1] (if truthy None then 2 * 3 else 2)
         = Inr [(1, 2), (2, 0)]
    \<and> index_search (scripted_env []) () [1] (if truthy (Some 2022) then 2 * 3 else 2)
         = Inr demo_neighbors
    \<and> (0::int) \<le> 2 \<and> \<not> truthy None \<and> truthy (Some 2022)
    \<and> sorted (map fst [(1::nat, 2::int), (2, 0)]))
   \<and> retrieve (scripted_env []) ''revenue'' 2 None 0 = (Inr [chunk_2019, chunk_2022], 0)
   \<and> retrieve (scripted_env []) ''revenue'' 2 (Some 2022) 0 = (Inr [chunk_2022, chunk_2021], 0)"
proof -
  have h1: "index_file (scripted_env []) 0 = Some ()"
    and h2: "meta_file (scripted_env []) 0 = Some demo_meta"
    and h3: "embeddings_create (scripted_env []) [''revenue''] 0 = (Inr ([1] # []), 0)"
    and h4: "index_search (scripted_env []) () [1] (if truthy None then 2 * 3 else 2)
         = Inr [(1, 2), (2, 0)]"
    and h4': "index_search (scripted_env []) () [1] (if truthy (Some 2022) then 2 * 3 else 2)
         = Inr demo_neighbors"
    by (simp_all add: scripted_env_def demo_neighbors_def truthy_def)
  have t: "\<not> truthy None" "truthy (Some 2022)" by (simp_all add: truthy_def)
  have a: "retrieve (scripted_env []) ''revenue'' 2 None 0 = (Inr [chunk_2019, chunk_2022], 0)"
    using retrieve_depth_and_order [OF h1 h2 h3 h4]
    by (simp add: resolved_simps demo_meta_def str_int_values accepts_def)
  have b: "retrieve (scripted_env []) ''revenue'' 2 (Some 2022) 0
      = (Inr [chunk_2022, chunk_2021], 0)"
    using retrieve_depth_and_order [OF h1 h2 h3 h4']
    by (simp add: demo_resolved accepts_def demo_years)
  from a b h1 h2 h3 h4 h4' t show ?thesis by simp
qed

text \<open>
  Claim C10.  For every query and \<open>k\<close>, \<^verbatim>\<open>retrieve(query, k, target_year=0)\<close> and
  \<^verbatim>\<open>retrieve(query, k, target_year=None)\<close> are the same computation: the same search
  depth, no year filter, the same result or the same exception.
\<close>

theorem retrieve_year_zero_is_none:
  "retrieve env query k (Some 0) w = retrieve env query k None w"
  unfolding retrieve_def truthy_def retrieve_loop_zero_none by simp


theorem retrieve_year_zero_is_none_witness:
  "retrieve (scripted_env []) ''revenue'' 2 (Some 0) 0
     = retrieve (scripted_env []) ''revenue'' 2 None 0
   \<and> retrieve (scripted_env []) ''revenue'' 2 (Some 0) 0 = (Inr [chunk_2019, chunk_2022], 0)
   \<and> retrieve (scripted_env []) ''revenue'' 2 (Some 2022) 0 = (Inr [chunk_2022, chunk_2021], 0)"
proof -
  have a: "retrieve (scripted_env []) ''revenue'' 2 None 0 = (Inr [chunk_2019, chunk_2022], 0)"
    by (simp add: retrieve_def load_index_def load_meta_def embed_query_def scripted_env_def
        truthy_def demo_neighbors_def demo_meta_def str_int_values py_slice_to_def
        norm_index_def Let_def)
  have b: "retrieve (scripted_env []) ''revenue'' 2 (Some 2022) 0 = (Inr [chunk_2022, chunk_2021], 0)"
    by (simp add: retrieve_def load_index_def load_meta_def embed_query_def scripted_env_def
        truthy_def demo_neighbors_def demo_meta_def str_int_values py_slice_to_def
        norm_index_def demo_years Let_def)
  from retrieve_year_zero_is_none [of "scripted_env []" "''revenue''" 2 0] a b
  show ?thesis by simp
qed

section \<open>Properties of answering\<close>

lemma cite_sources_eq:
  "cite_sources hits nums sources
     = sources @ map (\<lambda>n. citation n (hits ! nat (n - 1)))
                   (filter (\<lambda>n. 1 \<le> n \<and> n \<le> int (length hits)) nums)"
  by (induction nums arbitrary: sources) simp_all

lemma demo_retrieve_2022:
  "retrieve (scripted_env script) q 4 (Some 2022) w = (Inr [chunk_2022, chunk_2021], w)"
  by (simp add: retrieve_def load_index_def load_meta_def embed_query_def scripted_env_def
      truthy_def demo_neighbors_def demo_meta_def str_int_values py_slice_to_def
      norm_index_def demo_years Let_def)

lemma demo_retrieve_1990:
  "retrieve (scripted_env script) q 4 (Some 1990) w = (Inr [], w)"
  by (simp add: retrieve_def load_index_def load_meta_def embed_query_def scripted_env_def
      truthy_def demo_neighbors_def demo_meta_def str_int_values py_slice_to_def
      norm_index_def demo_years Let_def)

lemma demo_chat:
  "w < length script \<Longrightarrow> chat_create (scripted_env script) req w = (Inr (script ! w), Suc w)"
  by (simp add: scripted_env_def)

lemma demo_markers:
  "cited_numbers ''See [1], [x], [7] and [02].'' = [1, 7, 2]"
  by (simp add: cited_numbers_def is_digit_def int_of_digits_def digit_val_def)

lemma demo_answer:
  assumes "w < length script"
  shows "answer_sub_question (scripted_env script) q (Some 2022) w
     = (Inr \<lparr> r_question = q, r_answer = script ! w, r_chunks = [chunk_2022, chunk_2021],
               r_sources = map (\<lambda>n. citation n ([chunk_2022, chunk_2021] ! nat (n - 1)))
                             (filter (\<lambda>n. 1 \<le> n \<and> n \<le> 2) (cited_numbers (script ! w))) \<rparr>,
        Suc w)"
  using assms
  by (simp add: answer_sub_question_def demo_retrieve_2022 demo_chat cite_sources_eq Let_def)


lemma demo_alternatives:
  assumes "1 < length script"
    and "script ! 1 = ''- revenue 2022'' @ [newline] @ ''- sales 2022''"
  shows "generate_alternative_questions (scripted_env script) q (Suc 0)
     = (Inr [''revenue 2022'', ''sales 2022''], Suc (Suc 0))"
proof -
  have "chat_create (scripted_env script) (AlternativesPrompt q) (Suc 0)
      = (Inr (''- revenue 2022'' @ [newline] @ ''- sales 2022''), Suc (Suc 0))"
    using demo_chat [of 1 script] assms by simp
  then show ?thesis
    by (simp add: generate_alternative_questions_def newline_def strip_def
        isspace_def py_slice_from_def norm_index_def)
qed

lemma demo_failed:
  "failed ''I don't know based on the provided documents.''"
  "failed ''I don't know.''"
  "failed ''No relevant information found in [1].''"
  "\<not> failed ''Revenue was 120M [1].''"
  by (simp_all add: failed_def)

lemma demo_cited:
  "cited_numbers ''I don't know based on the provided documents.'' = []"
  "cited_numbers ''I don't know.'' = []"
  "cited_numbers ''No relevant information found in [1].'' = [1]"
  "cited_numbers ''Revenue was 120M [1].'' = [1]"
  by (simp_all add: cited_numbers_def is_digit_def int_of_digits_def digit_val_def)

lemma try_alternatives_skip:
  assumes "\<forall>j < n. answer_sub_question env (alts ! j) ty (ws j) = (Inr (rs j), ws (Suc j))
                    \<and> failed (r_answer (rs j))"
    and "n \<le> length alts"
  shows "try_alternatives env sq ty alts (ws 0) = try_alternatives env sq ty (drop n alts) (ws n)"
  using assms
proof (induction n)
  case 0
  show ?case by simp
next
  case (Suc n)
  then have IH: "try_alternatives env sq ty alts (ws 0)
      = try_alternatives env sq ty (drop n alts) (ws n)" by simp
  from Suc.prems have call: "answer_sub_question env (alts ! n) ty (ws n) = (Inr (rs n), ws (Suc n))"
    and fl: "failed (r_answer (rs n))" by simp_all
  from Suc.prems have "drop n alts = alts ! n # drop (Suc n) alts"
    by (simp add: Cons_nth_drop_Suc)
  with IH call fl show ?case by (auto simp: failed_def)
qed

lemma generate_answer_no_follow_up:
  assumes "answer_sub_question_with_fallback env question (extract_year_from_query question) w
             = (Inr main_result, w1)"
    and "analyze_missing_information env question (r_answer main_result) (r_chunks main_result) w1
             = (Inr a, w2)"
    and "follow_up_questions a = []"
  shows "generate_answer env question retrieved_chunks w
           = synthesize_final_answer env question [main_result] w2"
  using assms by (simp add: generate_answer_def Let_def)

lemma demo_year: "extract_year_from_query ''What was total revenue in 2022?'' = Some 2022"
  by (simp add: extract_year_from_query_def is_digit_def int_of_digits_def digit_val_def)

lemma demo_analysis:
  assumes "1 < length script"
    and "script ! 1 = ''MISSING INFORMATION:'' @ [newline] @ ''- nothing''"
  shows "analyze_missing_information (scripted_env script) q a cs (Suc 0)
     = (Inr \<lparr> missing_info = [''nothing''], follow_up_questions = [] \<rparr>, Suc (Suc 0))"
proof -
  have "chat_create (scripted_env script) req (Suc 0)
      = (Inr (''MISSING INFORMATION:'' @ [newline] @ ''- nothing''), Suc (Suc 0))" for req
    using demo_chat [of 1 script] assms by simp
  then show ?thesis
    by (simp add: analyze_missing_information_def newline_def strip_def
        isspace_def py_slice_from_def norm_index_def Let_def)
qed

text \<open>
  Claim C7.  For every sub-question, if retrieval returns no chunk,
  \<^verbatim>\<open>answer_sub_question\<close> returns the answer text \<open>No relevant information found.\<close> with
  no chunks and no sources, without calling the model.  Otherwise, for the markers
  \<open>[n]\<close> of the generated answer in order, a citation of the source and chunk index of
  the \<open>n\<close>-th retrieved chunk is emitted exactly for those with
  \<open>1 \<le> n \<le> number of retrieved chunks\<close>; the other markers are passed over.
\<close>

theorem answer_sub_question_citations:
  "(retrieve env sq 4 ty w = (Inr [], w1) \<longrightarrow>
      answer_sub_question env sq ty w
        = (Inr \<lparr> r_question = sq, r_answer = ''No relevant information found.'',
                  r_chunks = [], r_sources = [] \<rparr>, w1))
   \<and> (retrieve env sq 4 ty w = (Inr hits, w1) \<and> hits \<noteq> []
        \<and> chat_create env
              (AnswerPrompt (join [newline, newline] (numbered_passages 1 hits)) sq) w1
            = (Inr answer, w2) \<longrightarrow>
      answer_sub_question env sq ty w
        = (Inr \<lparr> r_question = sq, r_answer = answer, r_chunks = hits,
                  r_sources = map (\<lambda>n. citation n (hits ! nat (n - 1)))
                                (filter (\<lambda>n. 1 \<le> n \<and> n \<le> int (length hits))
                                   (cited_numbers answer)) \<rparr>, w2))"
  by (simp add: answer_sub_question_def cite_sources_eq Let_def)

theorem answer_sub_question_citations_witness:
  "answer_sub_question (scripted_env []) ''revenue'' (Some 1990) 0
     = (Inr \<lparr> r_question = ''revenue'', r_answer = ''No relevant information found.'',
               r_chunks = [], r_sources = [] \<rparr>, 0)
   \<and> answer_sub_question (scripted_env [''See [1], [x], [7] and [02].'']) ''revenue'' (Some 2022) 0
     = (Inr \<lparr> r_question = ''revenue'', r_answer = ''See [1], [x], [7] and [02].'',
               r_chunks = [chunk_2022, chunk_2021],
               r_sources = [''[1] report_2022.pdf, chunk 0'', ''[2] report_2021.pdf, chunk 3''] \<rparr>,
        1)"
proof -
  have a: "answer_sub_question (scripted_env []) ''revenue'' (Some 1990) 0
     = (Inr \<lparr> r_question = ''revenue'', r_answer = ''No relevant information found.'',
               r_chunks = [], r_sources = [] \<rparr>, 0)"
    using answer_sub_question_citations
      [of "scripted_env []" "''revenue''" "Some 1990" 0 0]
    by (simp add: demo_retrieve_1990)
  have b: "answer_sub_question (scripted_env [''See [1], [x], [7] and [02].'']) ''revenue'' (Some 2022) 0
     = (Inr \<lparr> r_question = ''revenue'', r_answer = ''See [1], [x], [7] and [02].'',
               r_chunks = [chunk_2022, chunk_2021],
               r_sources = [''[1] report_2022.pdf, chunk 0'', ''[2] report_2021.pdf, chunk 3''] \<rparr>,
        1)"
    using answer_sub_question_citations
      [of "scripted_env [''See [1], [x], [7] and [02].'']" "''revenue''" "Some 2022" 0 0
          "[chunk_2022, chunk_2021]" "''See [1], [x], [7] and [02].''" 1]
    by (simp add: demo_retrieve_2022 demo_chat demo_markers citation_def str_int_values
        chunk_2022_def chunk_2021_def)
  from a b show ?thesis by simp
qed


text \<open>
  Claim C5.  Let the direct answer to a sub-question contain a failure sentinel, and let
  the first \<open>n\<close> generated alternatives, tried in order, each give a result that contains
  a sentinel.  If these are all the alternatives (also when there is none), the
  original failed result is returned unchanged.  If the next alternative gives a
  result with neither sentinel, that result is returned, its question field rewritten
  to record the alternative used.
\<close>

theorem fallback_first_success:
  assumes "answer_sub_question env sq ty w = (Inr result, w1)"
    and "failed (r_answer result)"
    and "generate_alternative_questions env sq w1 = (Inr alts, ws 0)"
    and "\<forall>j < n. answer_sub_question env (alts ! j) ty (ws j) = (Inr (rs j), ws (Suc j))
                    \<and> failed (r_answer (rs j))"
    and "n \<le> length alts"
  shows "(n = length alts \<longrightarrow>
            answer_sub_question_with_fallback env sq ty w = (Inr result, ws n))
       \<and> (n < length alts
            \<and> answer_sub_question env (alts ! n) ty (ws n) = (Inr r, w')
            \<and> \<not> failed (r_answer r) \<longrightarrow>
            answer_sub_question_with_fallback env sq ty w
              = (Inr (annotate sq (alts ! n) r), w'))"
proof -
  have skip: "try_alternatives env sq ty alts (ws 0)
      = try_alternatives env sq ty (drop n alts) (ws n)"
    by (rule try_alternatives_skip [OF assms(4,5)])
  have top: "answer_sub_question_with_fallback env sq ty w =
      (case try_alternatives env sq ty (drop n alts) (ws n) of
         (Inl e, w3) \<Rightarrow> (Inl e, w3)
       | (Inr (Some alt_result), w3) \<Rightarrow> (Inr alt_result, w3)
       | (Inr None, w3) \<Rightarrow> (Inr result, w3))"
    using assms(1-3) skip by (simp add: answer_sub_question_with_fallback_def failed_def)
  show ?thesis
  proof (intro conjI impI)
    assume "n = length alts"
    with top show "answer_sub_question_with_fallback env sq ty w = (Inr result, ws n)"
      by simp
  next
    assume a: "n < length alts
        \<and> answer_sub_question env (alts ! n) ty (ws n) = (Inr r, w')
        \<and> \<not> failed (r_answer r)"
    then have "drop n alts = alts ! n # drop (Suc n) alts"
      by (simp add: Cons_nth_drop_Suc)
    with top a show "answer_sub_question_with_fallback env sq ty w
        = (Inr (annotate sq (alts ! n) r), w')"
      by (simp add: failed_def annotate_def)
  qed
qed

theorem fallback_first_success_witness:
  "answer_sub_question_with_fallback (scripted_env fallback_script) ''total revenue'' (Some 2022) 0
     = (Inr (demo_result ''total revenue (tried alternative: sales 2022)''
               ''Revenue was 120M [1].'' [''[1] report_2022.pdf, chunk 0'']), 4)
   \<and> answer_sub_question_with_fallback (scripted_env all_fail_script) ''total revenue'' (Some 2022) 0
     = (Inr (demo_result ''total revenue''
               ''I don't know based on the provided documents.'' []), 4)"
proof -
  let ?alts = "[''revenue 2022'', ''sales 2022'']"
  let ?c1 = "''[1] report_2022.pdf, chunk 0''"
  have cit: "citation 1 chunk_2022 = ?c1"
    by (simp add: citation_def str_int_values chunk_2022_def)
  \<comment> \<open>first script: the second alternative succeeds\<close>
  let ?env = "scripted_env fallback_script"
  let ?rs = "\<lambda>j::nat. demo_result (?alts ! j) ''I don't know.'' []"
  have m: "answer_sub_question ?env ''total revenue'' (Some 2022) 0
      = (Inr (demo_result ''total revenue'' ''I don't know based on the provided documents.'' []), 1)"
    by (simp add: demo_answer fallback_script_def demo_cited demo_result_def)
  have g: "generate_alternative_questions ?env ''total revenue'' 1 = (Inr ?alts, (\<lambda>j. j + 2) 0)"
    using demo_alternatives [of fallback_script] by (simp add: fallback_script_def)
  have c0: "\<forall>j < 1. answer_sub_question ?env (?alts ! j) (Some 2022) ((\<lambda>j. j + 2) j)
        = (Inr (?rs j), (\<lambda>j. j + 2) (Suc j)) \<and> failed (r_answer (?rs j))"
    by (simp add: demo_answer fallback_script_def demo_cited demo_result_def demo_failed)
  have c1: "answer_sub_question ?env (?alts ! 1) (Some 2022) ((\<lambda>j. j + 2) 1)
      = (Inr (demo_result ''sales 2022'' ''Revenue was 120M [1].'' [?c1]), 4)"
    by (simp add: demo_answer fallback_script_def demo_cited demo_result_def cit)
  have f: "failed (r_answer (demo_result ''total revenue''
             ''I don't know based on the provided documents.'' []))"
    by (simp add: demo_result_def demo_failed)
  have le: "(1::nat) \<le> length ?alts" by simp
  have a: "answer_sub_question_with_fallback ?env ''total revenue'' (Some 2022) 0
     = (Inr (demo_result ''total revenue (tried alternative: sales 2022)''
               ''Revenue was 120M [1].'' [?c1]), 4)"
    using fallback_first_success [OF m f g c0 le,
        of "demo_result ''sales 2022'' ''Revenue was 120M [1].'' [?c1]" 4] c1
    by (simp add: demo_result_def demo_failed annotate_def)
  \<comment> \<open>second script: every alternative fails\<close>
  let ?env2 = "scripted_env all_fail_script"
  let ?rs2 = "\<lambda>j::nat. if j = 0 then demo_result (?alts ! 0) ''I don't know.'' []
                       else demo_result (?alts ! 1) ''No relevant information found in [1].'' [?c1]"
  have m2: "answer_sub_question ?env2 ''total revenue'' (Some 2022) 0
      = (Inr (demo_result ''total revenue'' ''I don't know based on the provided documents.'' []), 1)"
    by (simp add: demo_answer all_fail_script_def demo_cited demo_result_def)
  have g2: "generate_alternative_questions ?env2 ''total revenue'' 1 = (Inr ?alts, (\<lambda>j. j + 2) 0)"
    using demo_alternatives [of all_fail_script] by (simp add: all_fail_script_def)
  have c2: "\<forall>j < 2. answer_sub_question ?env2 (?alts ! j) (Some 2022) ((\<lambda>j. j + 2) j)
        = (Inr (?rs2 j), (\<lambda>j. j + 2) (Suc j)) \<and> failed (r_answer (?rs2 j))"
    by (simp add: demo_answer all_fail_script_def demo_cited demo_result_def demo_failed cit
        less_Suc_eq numeral_2_eq_2)
  have le2: "(2::nat) \<le> length ?alts" by simp
  have b: "answer_sub_question_with_fallback ?env2 ''total revenue'' (Some 2022) 0
     = (Inr (demo_result ''total revenue''
               ''I don't know based on the provided documents.'' []), 4)"
    using fallback_first_success [OF m2 f g2 c2 le2] by simp
  from a b show ?thesis by simp
qed


text \<open>
  Claim C1 says that with no follow-up question the orchestrator skips synthesis and
  returns the main answer verbatim.  \<^verbatim>\<open>generate_answer\<close> has no such branch: with an
  empty follow-up list it still calls \<^verbatim>\<open>synthesize_final_answer\<close> on the main result
  alone and returns the model's reply.  On the question below the main answer is
  \<open>Revenue was 120M [1].\<close>, gap analysis lists no follow-up question, and the value
  returned is the synthesis reply.
\<close>

theorem generate_answer_no_short_circuit:
  "answer_sub_question_with_fallback (scripted_env no_follow_up_script)
       ''What was total revenue in 2022?'' (Some 2022) 0
     = (Inr (demo_result ''What was total revenue in 2022?'' ''Revenue was 120M [1].''
               [''[1] report_2022.pdf, chunk 0'']), 1)
   \<and> analyze_missing_information (scripted_env no_follow_up_script)
       ''What was total revenue in 2022?'' ''Revenue was 120M [1].''
       [chunk_2022, chunk_2021] 1
     = (Inr \<lparr> missing_info = [''nothing''], follow_up_questions = [] \<rparr>, 2)
   \<and> generate_answer (scripted_env no_follow_up_script)
       ''What was total revenue in 2022?'' [] 0
     = (Inr ''Synthesis: total revenue was 120M.'', 3)"
proof -
  let ?env = "scripted_env no_follow_up_script"
  let ?q = "''What was total revenue in 2022?''"
  let ?main = "demo_result ?q ''Revenue was 120M [1].'' [''[1] report_2022.pdf, chunk 0'']"
  have cit: "citation 1 chunk_2022 = ''[1] report_2022.pdf, chunk 0''"
    by (simp add: citation_def str_int_values chunk_2022_def)
  have asq: "answer_sub_question ?env ?q (Some 2022) 0 = (Inr ?main, 1)"
    by (simp add: demo_answer no_follow_up_script_def demo_cited demo_result_def cit)
  have nf: "\<not> failed (r_answer ?main)"
    by (simp add: demo_result_def demo_failed)
  have m: "answer_sub_question_with_fallback ?env ?q (Some 2022) 0 = (Inr ?main, 1)"
    using asq nf by (simp add: answer_sub_question_with_fallback_def failed_def)
  have an: "analyze_missing_information ?env ?q ''Revenue was 120M [1].'' [chunk_2022, chunk_2021] 1
      = (Inr \<lparr> missing_info = [''nothing''], follow_up_questions = [] \<rparr>, 2)"
    using demo_analysis [of no_follow_up_script] by (simp add: no_follow_up_script_def)
  have syn: "synthesize_final_answer ?env ?q [?main] 2 = (Inr ''Synthesis: total revenue was 120M.'', 3)"
    by (simp add: synthesize_final_answer_def scripted_env_def no_follow_up_script_def)
  have m': "answer_sub_question_with_fallback ?env ?q (extract_year_from_query ?q) 0
      = (Inr ?main, 1)"
    using m by (simp add: demo_year)
  have an': "analyze_missing_information ?env ?q (r_answer ?main) (r_chunks ?main) 1
      = (Inr \<lparr> missing_info = [''nothing''], follow_up_questions = [] \<rparr>, 2)"
    using an by (simp add: demo_result_def)
  have fu: "follow_up_questions \<lparr> missing_info = [''nothing''], follow_up_questions = [] \<rparr> = []"
    by simp
  have "generate_answer ?env ?q [] 0 = synthesize_final_answer ?env ?q [?main] 2"
    by (rule generate_answer_no_follow_up [OF m' an' fu])
  with syn m an show ?thesis by simp
qed

end
